theory Spec2Isabelle
  imports Complex_Main "HOL-Library.Sublist" "HOL-Library.AList"
begin

section \<open>Output libraries of uproot4: \<open>interpretation/library.py\<close>\<close>

subsection \<open>Exceptions\<close>

text \<open>
  Every exception the module raises is a value.  \<open>ValueError fmt arg\<close> stands for the
  message \<open>fmt.format(repr(arg))\<close>; \<open>KeyError k\<close> is a failed dictionary lookup of \<open>k\<close>;
  \<open>AssertionError msg\<close>, \<open>ImportError msg\<close> and \<open>TypeError msg\<close> carry their message.
\<close>

datatype error =
    AssertionError string
  | ImportError string
  | NotImplementedError
  | TypeError string
  | ValueError string string
  | KeyError string
  | AttributeError string
  | IndexError

text \<open>Sequencing of a computation that may raise.\<close>

definition bind :: "error + 'a \<Rightarrow> ('a \<Rightarrow> error + 'b) \<Rightarrow> error + 'b" where
  "bind m f = (case m of Inl e \<Rightarrow> Inl e | Inr x \<Rightarrow> f x)"

text \<open>A Python \<open>dict\<close> lookup \<open>d[k]\<close> on a dictionary with string keys.\<close>

definition getitem :: "(string \<rightharpoonup> 'v) \<Rightarrow> string \<Rightarrow> error + 'v" where
  "getitem d k = (case d k of None \<Rightarrow> Inl (KeyError k) | Some v \<Rightarrow> Inr v)"

subsection \<open>The classes and the registry \<open>_libraries\<close>\<close>

text \<open>
  The five classes of the module.  \<open>Library\<close> is the base class and has no \<open>name\<close>
  attribute; each subclass has a class attribute \<open>name\<close>.
\<close>

datatype library = Library | NumPy | Awkward | Pandas | CuPy

fun name :: "library \<Rightarrow> error + string" where
  "name Library = Inl (AttributeError ''name'')"
| "name NumPy = Inr ''np''"
| "name Awkward = Inr ''ak''"
| "name Pandas = Inr ''pd''"
| "name CuPy = Inr ''cp''"

text \<open>
  An object is its identity (an address) and its class.  The dictionary literal of
  \<open>_libraries\<close> creates exactly four instances; every later assignment
  \<open>_libraries[alias] = _libraries[C.name]\<close> stores the object already stored under the
  canonical name, so the alias and the canonical name refer to one object.
\<close>

datatype obj = Obj (addr: nat) (cls: library)

definition libraries :: "(string \<times> obj) list" where
  "libraries =
    (let np = Obj 0 NumPy; ak = Obj 1 Awkward; pd = Obj 2 Pandas; cp = Obj 3 CuPy in
     [(''np'', np), (''ak'', ak), (''pd'', pd), (''cp'', cp),
      (''numpy'', np), (''Numpy'', np), (''NumPy'', np), (''NUMPY'', np),
      (''awkward1'', ak), (''Awkward1'', ak), (''AWKWARD1'', ak),
      (''awkward'', ak), (''Awkward'', ak), (''AWKWARD'', ak),
      (''pandas'', pd), (''Pandas'', pd), (''PANDAS'', pd),
      (''cupy'', cp), (''Cupy'', cp), (''CuPy'', cp), (''CUPY'', cp)])"

text \<open>
  The argument of \<open>_regularize_library\<close>: an instance of one of the classes, one of the
  classes itself, or a string.
\<close>

datatype library_arg = Instance library | Class library | Str string

fun regularize_library :: "library_arg \<Rightarrow> error + obj" where
  "regularize_library (Instance c) = bind (name c) (getitem (map_of libraries))"
| "regularize_library (Class c) = bind (name c) (getitem (map_of libraries))"
| "regularize_library (Str s) =
     (case getitem (map_of libraries) s of
        Inl (KeyError k) \<Rightarrow> Inl (ValueError ''unrecognized library: {0}'' s)
      | r \<Rightarrow> r)"

text \<open>The spec's notion of a case-insensitive variant: equal after ASCII lower-casing.\<close>

definition lower_char :: "char \<Rightarrow> char" where
  "lower_char c =
     (case map_of (zip ''ABCDEFGHIJKLMNOPQRSTUVWXYZ'' ''abcdefghijklmnopqrstuvwxyz'') c of
        Some l \<Rightarrow> l
      | None \<Rightarrow> c)"

definition lower :: "string \<Rightarrow> string" where
  "lower s = map lower_char s"

definition spec_names :: "string list" where
  "spec_names = [''np'', ''ak'', ''pd'', ''cp'', ''numpy'', ''awkward'', ''awkward1'', ''pandas'', ''cupy'']"

subsection \<open>Python strings and dictionaries\<close>

text \<open>\<open>s.strip(chars)\<close>: drop the leading and the trailing characters that occur in \<open>chars\<close>.\<close>

definition strip :: "string \<Rightarrow> string \<Rightarrow> string" where
  "strip s chars =
     rev (dropWhile (\<lambda>c. c \<in> set chars) (rev (dropWhile (\<lambda>c. c \<in> set chars) s)))"

text \<open>\<open>str(n)\<close> of a non-negative integer: its decimal digits.\<close>

definition digit :: "nat \<Rightarrow> char" where
  "digit d = ''0123456789'' ! d"

function str :: "nat \<Rightarrow> string" where
  "str n = (if n < 10 then [digit n] else str (n div 10) @ [digit (n mod 10)])"
  by pat_completeness auto
termination
  by (relation "measure (\<lambda>n. n)") auto

declare str.simps [simp del]

text \<open>
  \<open>dict(pairs)\<close>: the pairs are inserted in order; a key seen again keeps its position and
  takes the new value.
\<close>

definition dict :: "(string \<times> 'v) list \<Rightarrow> (string \<times> 'v) list" where
  "dict kvs = foldl (\<lambda>d (k, v). AList.update k v d) [] kvs"

text \<open>\<open>[arrays[name] for name in names]\<close>: the first missing key raises.\<close>

fun lookup_all :: "(string \<rightharpoonup> 'v) \<Rightarrow> string list \<Rightarrow> error + 'v list" where
  "lookup_all arrays [] = Inr []"
| "lookup_all arrays (n # ns) =
     bind (getitem arrays n) (\<lambda>v. bind (lookup_all arrays ns) (\<lambda>vs. Inr (v # vs)))"

text \<open>\<open>dict((key(name), arrays[name]) for name in names)\<close>.\<close>

definition dict_from :: "(string \<Rightarrow> string) \<Rightarrow> (string \<rightharpoonup> 'v) \<Rightarrow> string list \<Rightarrow> error + (string \<times> 'v) list" where
  "dict_from key arrays names =
     bind (lookup_all arrays names) (\<lambda>vs. Inr (dict (zip (map key names) vs)))"

subsection \<open>Raw arrays and Awkward layouts\<close>

text \<open>
  The arrays handed to \<open>finalize\<close>: a \<open>JaggedArray\<close> and a \<open>StringArray\<close> have offsets of
  some NumPy dtype and a content buffer, an \<open>ObjectArray\<close> is a sequence of values, and
  anything else is a NumPy array with a shape, whose dtype has field names
  (\<open>dtype.names\<close>, each with the flattened data of that field) or none.
\<close>

datatype offsets_dtype = Int32 | UInt32 | Int64 | OtherDtype string

datatype 'a raw_array =
    JaggedArray offsets_dtype "int list" "'a list"
  | StringArray offsets_dtype "int list" "'a list"
  | ObjectArray "'a list"
  | Structured "nat list" "(string \<times> 'a list) list"
  | Plain "nat list" "'a list"

text \<open>
  The layouts of \<open>awkward1.layout\<close> that the module constructs.  The index width of a
  \<open>ListOffsetArray\<close> is part of its class name (\<open>ListOffsetArray32\<close>, \<open>ListOffsetArrayU32\<close>,
  \<open>ListOffsetArray64\<close>, over \<open>Index32\<close>, \<open>IndexU32\<close>, \<open>Index64\<close>); the optional string is
  the \<open>__array__\<close> parameter.
\<close>

datatype index_width = W32 | WU32 | W64

datatype 'a layout =
    NumpyArray "'a list" "string option"
  | ListOffsetArray index_width "int list" "'a layout" "string option"
  | RecordArray "'a layout list" "string list" nat
  | RegularArray "'a layout" nat

text \<open>
  A high-level \<open>awkward1.Array\<close> is either the wrapper of a layout or the result of
  \<open>awkward1.zip(fields, depth_limit)\<close>, kept as the call that made it: its field table and
  its depth limit.
\<close>

datatype 'a ak_array =
    Array "'a layout"
  | Zip "(string \<times> 'a ak_array) list" "nat option"

text \<open>The field names of a record (none for an array that is not one).\<close>

fun field_names :: "'a ak_array \<Rightarrow> string list" where
  "field_names (Zip fs d) = map fst fs"
| "field_names (Array l) = []"

text \<open>\<open>array.layout.offsets\<close>: only a \<open>ListOffsetArray\<close> layout has the attribute.\<close>

fun layout_offsets :: "'a ak_array \<Rightarrow> error + int list" where
  "layout_offsets (Array (ListOffsetArray w offs c p)) = Inr offs"
| "layout_offsets _ = Inl (AttributeError ''offsets'')"

text \<open>
  \<open>awkward1.with_field(base, what, where)\<close> on a record: a field named \<open>where\<close> that the
  record already has is removed, and \<open>what\<close> is added as the last field, named \<open>where\<close>.  An
  array without fields is refused.
\<close>

definition setitem_field :: "string \<Rightarrow> 'v \<Rightarrow> (string \<times> 'v) list \<Rightarrow> (string \<times> 'v) list" where
  "setitem_field wh what fs = filter (\<lambda>kv. fst kv \<noteq> wh) fs @ [(wh, what)]"

fun with_field :: "'a ak_array \<Rightarrow> 'a ak_array \<Rightarrow> string \<Rightarrow> error + 'a ak_array" where
  "with_field (Zip fs d) what wh = Inr (Zip (setitem_field wh what fs) d)"
| "with_field (Array l) what wh =
     Inl (ValueError ''no tuples or records in array; cannot add a new field'' [])"

subsection \<open>\<open>Awkward.finalize\<close>\<close>

text \<open>
  The first statement of \<open>finalize\<close> and of \<open>group\<close> reads the property \<open>self.imported\<close>;
  its outcome is the first argument here: the exception it raised or the module.
\<close>

type_synonym imported = "error + string"

text \<open>
  \<open>awkward1.from_numpy\<close> and \<open>awkward1.layout.NumpyArray\<close> both wrap a buffer; the shape of a
  plain array stays with its buffer and is not part of the layout here.
\<close>

text \<open>
  \<open>repr\<close> of a NumPy dtype, as in \<open>dtype('int16')\<close>; \<open>OtherDtype\<close> carries the dtype's name.
\<close>

fun dtype_name :: "offsets_dtype \<Rightarrow> string" where
  "dtype_name Int32 = ''int32''"
| "dtype_name UInt32 = ''uint32''"
| "dtype_name Int64 = ''int64''"
| "dtype_name (OtherDtype s) = s"

definition repr_dtype :: "offsets_dtype \<Rightarrow> string" where
  "repr_dtype dt = ''dtype('' @ [CHR 0x27] @ dtype_name dt @ [CHR 0x27] @ '')''"

text \<open>
  The index classes hold integers of their width: \<open>Index32(array)\<close>, \<open>IndexU32(array)\<close> and
  \<open>Index64(array)\<close> cast every element of the array to 32 bits signed, 32 bits unsigned and
  64 bits signed (two's complement, as the C cast does).
\<close>

definition Index32 :: "int list \<Rightarrow> int list" where
  "Index32 offsets = map (\<lambda>x. (x + 2147483648) mod 4294967296 - 2147483648) offsets"

definition IndexU32 :: "int list \<Rightarrow> int list" where
  "IndexU32 offsets = map (\<lambda>x. x mod 4294967296) offsets"

definition Index64 :: "int list \<Rightarrow> int list" where
  "Index64 offsets =
     map (\<lambda>x. (x + 9223372036854775808) mod 18446744073709551616 - 9223372036854775808) offsets"

fun finalize_ak_array :: "'a raw_array \<Rightarrow> error + 'a ak_array" where
  "finalize_ak_array (JaggedArray dt offsets content) =
     Inr (Array (ListOffsetArray W32 (Index32 offsets) (NumpyArray content None) None))"
| "finalize_ak_array (StringArray dt offsets content) =
     (if dt = Int32 then
        Inr (Array (ListOffsetArray W32 (Index32 offsets) (NumpyArray content (Some ''char''))
               (Some ''string'')))
      else if dt = UInt32 then
        Inr (Array (ListOffsetArray WU32 (IndexU32 offsets) (NumpyArray content (Some ''char''))
               (Some ''string'')))
      else if dt = Int64 then
        Inr (Array (ListOffsetArray W64 (Index64 offsets) (NumpyArray content (Some ''char''))
               (Some ''string'')))
      else Inl (AssertionError (repr_dtype dt)))"
| "finalize_ak_array (ObjectArray values) = Inl NotImplementedError"
| "finalize_ak_array (Structured shape columns) =
     (case shape of
        [] \<Rightarrow> Inl IndexError
      | len # shape' \<Rightarrow>
          Inr (Array (fold (\<lambda>sz out. RegularArray out sz) (rev shape')
                 (RecordArray (map (\<lambda>(n, c). NumpyArray c None) columns) (map fst columns) len))))"
| "finalize_ak_array (Plain shape content) = Inr (Array (NumpyArray content None))"

definition finalize_ak :: "imported \<Rightarrow> 'a raw_array \<Rightarrow> error + 'a ak_array" where
  "finalize_ak imp array = bind imp (\<lambda>awkward1. finalize_ak_array array)"

subsection \<open>Grouping: the modes shared by all libraries\<close>

text \<open>
  The argument \<open>how\<close>: the types \<open>tuple\<close>, \<open>list\<close>, \<open>dict\<close>, the value \<open>None\<close>, a string, or
  any other object.  The expression context is a list of pairs of a name and a context
  dictionary, of which only the entry \<open>is_jagged\<close> is read.
\<close>

datatype how = HowTuple | HowList | HowDict | HowNone | HowStr string | HowOther

record field_context =
  is_jagged :: bool

type_synonym expression_context = "(string \<times> field_context) list"

datatype ('v, 'r) grouped =
    Tuple "'v list"
  | List "'v list"
  | Dict "(string \<times> 'v) list"
  | Native 'r
  | PyNone

text \<open>\<open>Library.group\<close>, inherited by \<open>NumPy\<close> and \<open>CuPy\<close>; \<open>nm\<close> is \<open>self.name\<close>.\<close>

definition group :: "string \<Rightarrow> (string \<rightharpoonup> 'v) \<Rightarrow> expression_context \<Rightarrow> how \<Rightarrow> error + ('v, 'r) grouped" where
  "group nm arrays expression_context how =
     (if how = HowTuple then
        bind (lookup_all arrays (map fst expression_context)) (\<lambda>vs. Inr (Tuple vs))
      else if how = HowList then
        bind (lookup_all arrays (map fst expression_context)) (\<lambda>vs. Inr (List vs))
      else if how = HowDict \<or> how = HowNone then
        bind (dict_from id arrays (map fst expression_context)) (\<lambda>d. Inr (Dict d))
      else
        Inl (TypeError (''for library '' @ nm @
               '', how must be tuple, list, dict, or None (for dict)'')))"

subsection \<open>\<open>Awkward.group\<close>\<close>

text \<open>
  The inner loop \<open>for o, j in zip(offsets, jaggeds)\<close> of the clustering: the name joins
  the first cluster whose offsets equal the array's (\<open>numpy.array_equal\<close>) and the loop
  breaks; \<open>None\<close> is the loop running to its \<open>else\<close>.
\<close>

fun place :: "int list \<Rightarrow> string \<Rightarrow> int list list \<Rightarrow> string list list \<Rightarrow> string list list option" where
  "place a nm (o' # os) (j # js) =
     (if a = o' then Some ((j @ [nm]) # js) else map_option ((#) j) (place a nm os js))"
| "place a nm _ _ = None"

text \<open>One iteration of \<open>for name, context in expression_context\<close>, on the three lists.\<close>

definition cluster_step ::
  "(string \<rightharpoonup> 'a ak_array) \<Rightarrow> string list \<times> int list list \<times> string list list \<Rightarrow> string \<times> field_context
     \<Rightarrow> error + string list \<times> int list list \<times> string list list" where
  "cluster_step arrays st nc =
     (case st of (nonjagged, offsets, jaggeds) \<Rightarrow>
      case nc of (nm, ctx) \<Rightarrow>
        bind (getitem arrays nm) (\<lambda>array.
          if is_jagged ctx then
            bind (layout_offsets array) (\<lambda>a.
              if length offsets = 0 then Inr (nonjagged, offsets @ [a], jaggeds @ [[nm]])
              else (case place a nm offsets jaggeds of
                      Some jaggeds' \<Rightarrow> Inr (nonjagged, offsets, jaggeds')
                    | None \<Rightarrow> Inr (nonjagged, offsets @ [a], jaggeds @ [[nm]])))
          else Inr (nonjagged @ [nm], offsets, jaggeds)))"

fun cluster_loop ::
  "(string \<rightharpoonup> 'a ak_array) \<Rightarrow> expression_context \<Rightarrow> string list \<times> int list list \<times> string list list
     \<Rightarrow> error + string list \<times> int list list \<times> string list list" where
  "cluster_loop arrays [] st = Inr st"
| "cluster_loop arrays (nc # rest) st = bind (cluster_step arrays st nc) (cluster_loop arrays rest)"

text \<open>
  The inner \<open>while cut > 0 and name[:cut] != jagged[0][:cut]: cut -= 1\<close>, and the loop
  \<open>for name in jagged\<close> around it, which breaks once \<open>cut\<close> is 0; \<open>n\<close> is the
  variable \<open>cut\<close>.
\<close>

fun shrink :: "string \<Rightarrow> string \<Rightarrow> nat \<Rightarrow> nat" where
  "shrink nm first 0 = 0"
| "shrink nm first (Suc c) =
     (if take (Suc c) nm \<noteq> take (Suc c) first then shrink nm first c else Suc c)"

fun cut_loop :: "string \<Rightarrow> string list \<Rightarrow> nat \<Rightarrow> nat" where
  "cut_loop first [] n = n"
| "cut_loop first (nm # rest) n =
     (let n' = shrink nm first (min n (length nm))
      in if n' = 0 then 0 else cut_loop first rest n')"

text \<open>
  The body of \<open>for number, jagged in enumerate(jaggeds)\<close> up to the choice of \<open>common\<close> and
  \<open>subarray\<close>.
\<close>

definition name_cluster ::
  "(string \<rightharpoonup> 'a ak_array) \<Rightarrow> nat \<Rightarrow> string list \<Rightarrow> error + string \<times> 'a ak_array" where
  "name_cluster arrays number jagged =
     (case jagged of
        [] \<Rightarrow> Inl IndexError
      | first # _ \<Rightarrow>
          (let n = cut_loop first jagged (length first) in
           if n = 0 then
             bind (dict_from id arrays jagged) (\<lambda>d. Inr (''jagged'' @ str number, Zip d None))
           else
             bind (dict_from (\<lambda>nm. strip (drop n nm) ''_./'') arrays jagged)
               (\<lambda>d. Inr (strip (take n first) ''_./'', Zip d None))))"

text \<open>\<open>for name in jagged: out = awkward1.with_field(out, subarray, common)\<close>.\<close>

fun with_field_loop :: "string list \<Rightarrow> 'a ak_array \<Rightarrow> string \<Rightarrow> 'a ak_array \<Rightarrow> error + 'a ak_array" where
  "with_field_loop [] subarray common out = Inr out"
| "with_field_loop (nm # rest) subarray common out =
     bind (with_field out subarray common) (with_field_loop rest subarray common)"

fun attach ::
  "(string \<rightharpoonup> 'a ak_array) \<Rightarrow> nat \<Rightarrow> string list list \<Rightarrow> 'a ak_array option \<Rightarrow> error + 'a ak_array option" where
  "attach arrays number [] out = Inr out"
| "attach arrays number (jagged # rest) out =
     bind (name_cluster arrays number jagged) (\<lambda>(common, subarray).
       bind (case out of
               None \<Rightarrow> Inr (Zip [(common, subarray)] (Some 1))
             | Some out' \<Rightarrow> with_field_loop jagged subarray common out')
         (\<lambda>out'. attach arrays (Suc number) rest (Some out')))"

definition group_zip ::
  "(string \<rightharpoonup> 'a ak_array) \<Rightarrow> expression_context \<Rightarrow> error + ('a ak_array, 'a ak_array) grouped" where
  "group_zip arrays expression_context =
     bind (cluster_loop arrays expression_context ([], [], [])) (\<lambda>(nonjagged, offsets, jaggeds).
       bind (if length nonjagged \<noteq> 0
             then bind (dict_from id arrays nonjagged) (\<lambda>d. Inr (Some (Zip d (Some 1))))
             else Inr None)
         (\<lambda>out. bind (attach arrays 0 jaggeds out)
            (\<lambda>out. Inr (case out of None \<Rightarrow> PyNone | Some r \<Rightarrow> Native r))))"

definition group_ak ::
  "imported \<Rightarrow> (string \<rightharpoonup> 'a ak_array) \<Rightarrow> expression_context \<Rightarrow> how
     \<Rightarrow> error + ('a ak_array, 'a ak_array) grouped" where
  "group_ak imp arrays expression_context how =
     bind imp (\<lambda>awkward1.
       if how = HowTuple then
         bind (lookup_all arrays (map fst expression_context)) (\<lambda>vs. Inr (Tuple vs))
       else if how = HowList then
         bind (lookup_all arrays (map fst expression_context)) (\<lambda>vs. Inr (List vs))
       else if how = HowDict then
         bind (dict_from id arrays (map fst expression_context)) (\<lambda>d. Inr (Dict d))
       else if how = HowNone then
         bind (dict_from id arrays (map fst expression_context)) (\<lambda>d. Inr (Native (Zip d (Some 1))))
       else if how = HowStr ''zip'' then group_zip arrays expression_context
       else
         Inl (TypeError (''for library ak, how must be tuple, list, dict, '' @ [CHR 0x22] @ ''zip'' @ [CHR 0x22] @ '' for '' @
                ''a record array with jagged arrays zipped, if possible, or '' @
                ''None, for an unzipped record array'')))"

subsection \<open>\<open>Pandas.finalize\<close> and \<open>Pandas.group\<close>\<close>

text \<open>
  What the module hands to the Pandas constructors.  The index of a \<open>Series\<close> is the
  default one or \<open>MultiIndex.from_arrays(array.parents_localindex(), names=["entry",
  "subentry"])\<close>, kept as the offsets it is computed from.  The values are a buffer passed
  as it is, the object array filled by \<open>for i, x in enumerate(array): out[i] = x\<close>, or a
  selection \<open>array[n][(slice(None),) + tup]\<close> (\<open>array[(slice(None),) + tup]\<close> without a
  field name).
\<close>

datatype pd_index = RangeIndex | EntrySubentry "int list"

datatype 'a pd_values =
    Buffer "'a list"
  | Rows "'a raw_array"
  | Item "string option" "nat list"

datatype 'a pandas =
    Series "'a pd_values" pd_index
  | DataFrame "(string \<times> 'a pd_values) list" "string list"

text \<open>\<open>itertools.product(*[range(d) for d in dims])\<close>, the leftmost index varying slowest.\<close>

definition product :: "nat list \<Rightarrow> nat list list" where
  "product dims = product_lists (map (\<lambda>d. [0..<d]) dims)"

text \<open>\<open>"".join("[" + str(x) + "]" for x in tup)\<close>.\<close>

definition bracketed :: "nat list \<Rightarrow> string" where
  "bracketed tup = concat (map (\<lambda>x. ''['' @ str x @ '']'') tup)"

text \<open>
  The two loops that fill \<open>names\<close> and \<open>arrays\<close> together, as the list of the pairs
  \<open>(name, arrays[name])\<close> in the order of the appends.
\<close>

definition structured_items :: "string list \<Rightarrow> nat list \<Rightarrow> (string \<times> 'a pd_values) list" where
  "structured_items dtype_names dims =
     concat (map (\<lambda>n. map (\<lambda>tup. ('':'' @ n @ bracketed tup, Item (Some n) tup)) (product dims))
               dtype_names)"

definition plain_items :: "nat list \<Rightarrow> (string \<times> 'a pd_values) list" where
  "plain_items dims = map (\<lambda>tup. (bracketed tup, Item None tup)) (product dims)"

text \<open>
  On an array without dimensions \<open>array.shape[1:]\<close> is empty, the product is the one
  empty tuple, and the selection \<open>[(slice(None),)]\<close> raises \<open>IndexError\<close>.
\<close>

fun finalize_pd_array :: "'a raw_array \<Rightarrow> error + 'a pandas" where
  "finalize_pd_array (JaggedArray dt offsets content) =
     Inr (Series (Buffer content) (EntrySubentry offsets))"
| "finalize_pd_array (StringArray dt offsets content) =
     Inr (Series (Rows (StringArray dt offsets content)) RangeIndex)"
| "finalize_pd_array (ObjectArray values) = Inr (Series (Rows (ObjectArray values)) RangeIndex)"
| "finalize_pd_array (Structured shape columns) =
     (if length shape \<noteq> 1 then
        (let items = structured_items (map fst columns) (drop 1 shape) in
         if shape = [] \<and> items \<noteq> [] then Inl IndexError
         else Inr (DataFrame (dict items) (map fst items)))
      else
        Inr (DataFrame (dict (map (\<lambda>x. ('':'' @ x, Item (Some x) [])) (map fst columns)))
               (map (\<lambda>x. '':'' @ x) (map fst columns))))"
| "finalize_pd_array (Plain shape content) =
     (if length shape \<noteq> 1 then
        (let items = plain_items (drop 1 shape) in
         if shape = [] \<and> items \<noteq> [] then Inl IndexError
         else Inr (DataFrame (dict items) (map fst items)))
      else Inr (Series (Buffer content) RangeIndex))"

definition finalize_pd :: "imported \<Rightarrow> 'a raw_array \<Rightarrow> error + 'a pandas" where
  "finalize_pd imp array = bind imp (\<lambda>pandas. finalize_pd_array array)"

text \<open>
  \<open>Pandas.group\<close>.  The branch for a string or \<open>None\<close> (the alignment and the merges of
  the tables) is the parameter \<open>tables\<close>, applied to \<open>arrays\<close>, \<open>names\<close> and \<open>how\<close>.
\<close>

fun isstr :: "how \<Rightarrow> bool" where
  "isstr (HowStr s) = True"
| "isstr _ = False"

definition group_pd ::
  "imported \<Rightarrow> ((string \<rightharpoonup> 'v) \<Rightarrow> string list \<Rightarrow> how \<Rightarrow> error + ('v, 'r) grouped)
     \<Rightarrow> (string \<rightharpoonup> 'v) \<Rightarrow> expression_context \<Rightarrow> how \<Rightarrow> error + ('v, 'r) grouped" where
  "group_pd imp tables arrays expression_context how =
     bind imp (\<lambda>pandas.
       let names = map fst expression_context in
       if how = HowTuple then bind (lookup_all arrays names) (\<lambda>vs. Inr (Tuple vs))
       else if how = HowList then bind (lookup_all arrays names) (\<lambda>vs. Inr (List vs))
       else if how = HowDict then bind (dict_from id arrays names) (\<lambda>d. Inr (Dict d))
       else if isstr how \<or> how = HowNone then tables arrays names how
       else
         Inl (TypeError (''for library pd, how must be tuple, list, dict, str (for '' @
                ''pandas.merge'' @ [CHR 0x27] @ ''s '' @ [CHR 0x27] @ ''how'' @ [CHR 0x27] @
                '' parameter, or None (for one or more'' @
                ''DataFrames without merging)'')))"

subsection \<open>The property \<open>imported\<close>\<close>

text \<open>
  The statement \<open>import m\<close> reads and writes the interpreter: when \<open>m\<close> is in
  \<open>sys.modules\<close> the statement binds that module and nothing else happens; otherwise the
  import system searches for \<open>m\<close> and loads it, and enters it into \<open>sys.modules\<close> only when
  that succeeded.  The record keeps \<open>sys.modules\<close> and, to count them, the names searched
  for so far; \<open>available\<close> says which modules the search finds.
\<close>

record interpreter =
  sys_modules :: "string list"
  searches :: "string list"

definition import_module :: "(string \<Rightarrow> bool) \<Rightarrow> string \<Rightarrow> interpreter \<Rightarrow> bool \<times> interpreter" where
  "import_module available m st =
     (if m \<in> set (sys_modules st) then (True, st)
      else if available m then
        (True, st\<lparr>sys_modules := m # sys_modules st, searches := searches st @ [m]\<rparr>)
      else (False, st\<lparr>searches := searches st @ [m]\<rparr>))"

definition quoted :: "string \<Rightarrow> string" where
  "quoted s = [CHR 0x27] @ s @ [CHR 0x27]"

definition pip_message :: "string \<Rightarrow> string" where
  "pip_message m =
     ''install the '' @ quoted m @ '' package with:'' @ [CHR 0x0A, CHR 0x0A] @
     ''    pip install '' @ m"

definition conda_message :: "string \<Rightarrow> string" where
  "conda_message m =
     pip_message m @ [CHR 0x0A, CHR 0x0A] @ ''or'' @ [CHR 0x0A, CHR 0x0A] @
     ''    conda install '' @ m"

text \<open>
  The property of each class, as a function of the interpreter.  \<open>NumPy.imported\<close> has no
  \<open>try\<close>: a failed import raises the import system's own error.
\<close>

fun imported :: "(string \<Rightarrow> bool) \<Rightarrow> library \<Rightarrow> interpreter \<Rightarrow> (error + string) \<times> interpreter" where
  "imported available Library st = (Inl (AssertionError []), st)"
| "imported available NumPy st =
     (case import_module available ''numpy'' st of
        (True, st') \<Rightarrow> (Inr ''numpy'', st')
      | (False, st') \<Rightarrow> (Inl (ImportError (''No module named '' @ quoted ''numpy'')), st'))"
| "imported available Awkward st =
     (case import_module available ''awkward1'' st of
        (True, st') \<Rightarrow> (Inr ''awkward1'', st')
      | (False, st') \<Rightarrow> (Inl (ImportError (pip_message ''awkward1'')), st'))"
| "imported available Pandas st =
     (case import_module available ''pandas'' st of
        (True, st') \<Rightarrow> (Inr ''pandas'', st')
      | (False, st') \<Rightarrow> (Inl (ImportError (conda_message ''pandas'')), st'))"
| "imported available CuPy st =
     (case import_module available ''cupy'' st of
        (True, st') \<Rightarrow> (Inr ''cupy'', st')
      | (False, st') \<Rightarrow> (Inl (ImportError (conda_message ''cupy'')), st'))"

subsection \<open>Notions of the specification\<close>

text \<open>
  The longest common leading-character prefix of all the names of a list (of two names,
  \<open>longest_common_prefix\<close>).
\<close>

fun lcp_all :: "string list \<Rightarrow> string" where
  "lcp_all [] = []"
| "lcp_all (n # ns) = fold longest_common_prefix ns n"

text \<open>Stripping the trailing characters only (Python's \<open>rstrip\<close>).\<close>

definition rstrip :: "string \<Rightarrow> string \<Rightarrow> string" where
  "rstrip s chars = rev (dropWhile (\<lambda>c. c \<in> set chars) (rev s))"

text \<open>The distinct elements of a list in first-seen order, a new one appended at the end.\<close>

definition first_seen :: "'a list \<Rightarrow> 'a list" where
  "first_seen xs = foldl (\<lambda>seen x. if x \<in> set seen then seen else seen @ [x]) [] xs"

text \<open>The offsets of the finalized array of a field (empty when it has none).\<close>

definition offsets_of :: "(string \<rightharpoonup> 'a ak_array) \<Rightarrow> string \<Rightarrow> int list" where
  "offsets_of arrays nm =
     (case bind (getitem arrays nm) layout_offsets of Inr a \<Rightarrow> a | Inl e \<Rightarrow> [])"

text \<open>The names of the fields of an expression context that are, and are not, jagged.\<close>

definition jagged_names :: "expression_context \<Rightarrow> string list" where
  "jagged_names ec = map fst (filter (\<lambda>nc. is_jagged (snd nc)) ec)"

definition nonjagged_names :: "expression_context \<Rightarrow> string list" where
  "nonjagged_names ec = map fst (filter (\<lambda>nc. \<not> is_jagged (snd nc)) ec)"

text \<open>A name that begins with one of the separator characters.\<close>

definition starts_with_separator :: "string \<Rightarrow> bool" where
  "starts_with_separator s = (case s of [] \<Rightarrow> False | c # _ \<Rightarrow> c \<in> set ''_./'')"

subsection \<open>The scenario of the specification\<close>

text \<open>
  Two jagged fields \<open>muon_pt\<close> and \<open>muon_eta\<close> with the offsets \<open>[0, 2, 3]\<close> and the flat
  field \<open>event_id\<close>, as finalized arrays.
\<close>

definition jag :: "int list \<Rightarrow> real list \<Rightarrow> real ak_array" where
  "jag offsets content = Array (ListOffsetArray W32 offsets (NumpyArray content None) None)"

definition muon_arrays :: "string \<rightharpoonup> real ak_array" where
  "muon_arrays =
     [''muon_pt'' \<mapsto> jag [0, 2, 3] [1.0, 2.0, 3.0],
      ''muon_eta'' \<mapsto> jag [0, 2, 3] [0.1, 0.2, 0.3],
      ''event_id'' \<mapsto> Array (NumpyArray [10, 11] None)]"

definition muon_context :: expression_context where
  "muon_context =
     [(''muon_pt'', \<lparr>is_jagged = True\<rparr>), (''muon_eta'', \<lparr>is_jagged = True\<rparr>),
      (''event_id'', \<lparr>is_jagged = False\<rparr>)]"

text \<open>
  The clustering of the specification: the jagged names in the order of the expression
  context, one cluster for each distinct offsets array in first-seen order, each cluster
  holding the names with those offsets.
\<close>

definition spec_clusters ::
  "(string \<rightharpoonup> 'a ak_array) \<Rightarrow> expression_context \<Rightarrow> string list \<times> int list list \<times> string list list" where
  "spec_clusters arrays ec =
     (let jn = jagged_names ec; os = first_seen (map (offsets_of arrays) jn)
      in (nonjagged_names ec, os, map (\<lambda>a. filter (\<lambda>n. offsets_of arrays n = a) jn) os))"

text \<open>
  The common names and the sub-records of a list of clusters, numbered from \<open>number\<close>.
\<close>

definition named_clusters ::
  "(string \<rightharpoonup> 'a ak_array) \<Rightarrow> nat \<Rightarrow> string list list \<Rightarrow> (string \<times> 'a ak_array) list" where
  "named_clusters arrays number jaggeds =
     map (\<lambda>(i, jagged).
            case name_cluster arrays i jagged of
              Inr named \<Rightarrow> named
            | Inl e \<Rightarrow> ([], Zip [] None))
       (enumerate number jaggeds)"

text \<open>A third jagged field of the scenario, with other offsets.\<close>

definition jet_arrays :: "string \<rightharpoonup> real ak_array" where
  "jet_arrays = muon_arrays(''jet_pt'' \<mapsto> jag [0, 1, 4] [5.0, 6.0, 7.0, 8.0])"

definition jet_context :: expression_context where
  "jet_context =
     [(''muon_pt'', \<lparr>is_jagged = True\<rparr>), (''jet_pt'', \<lparr>is_jagged = True\<rparr>),
      (''event_id'', \<lparr>is_jagged = False\<rparr>), (''muon_eta'', \<lparr>is_jagged = True\<rparr>)]"

text \<open>The module that the property \<open>imported\<close> of a class imports.\<close>

fun module_of :: "library \<Rightarrow> string" where
  "module_of Library = []"
| "module_of NumPy = ''numpy''"
| "module_of Awkward = ''awkward1''"
| "module_of Pandas = ''pandas''"
| "module_of CuPy = ''cupy''"

text \<open>
  The interpreter once \<open>library.py\<close> is loaded: its own \<open>import numpy\<close> has run, nothing has
  been searched for since.
\<close>

definition loaded :: interpreter where
  "loaded = \<lparr>sys_modules = [''numpy''], searches = []\<rparr>"

text \<open>
  Two clusters with one common name: \<open>mu_pt\<close> and \<open>mu_eta\<close> share the offsets \<open>[0, 2, 3]\<close>,
  \<open>mu.x\<close> and \<open>mu.y\<close> share the offsets \<open>[0, 1, 4]\<close>.
\<close>

definition mu_arrays :: "string \<rightharpoonup> real ak_array" where
  "mu_arrays =
     [''mu_pt'' \<mapsto> jag [0, 2, 3] [1.0, 2.0, 3.0],
      ''mu_eta'' \<mapsto> jag [0, 2, 3] [0.1, 0.2, 0.3],
      ''mu.x'' \<mapsto> jag [0, 1, 4] [5.0, 6.0, 7.0, 8.0],
      ''mu.y'' \<mapsto> jag [0, 1, 4] [9.0, 10.0, 11.0, 12.0]]"

definition mu_context :: expression_context where
  "mu_context =
     [(''mu_pt'', \<lparr>is_jagged = True\<rparr>), (''mu_eta'', \<lparr>is_jagged = True\<rparr>),
      (''mu.x'', \<lparr>is_jagged = True\<rparr>), (''mu.y'', \<lparr>is_jagged = True\<rparr>)]"

section \<open>Properties\<close>

subsection \<open>Auxiliary facts\<close>

lemma bind_Inr [simp]: "bind (Inr x) f = f x"
  by (simp add: bind_def)

lemma bind_Inl [simp]: "bind (Inl e) f = Inl e"
  by (simp add: bind_def)

lemma bind_eq_Inr: "bind m f = Inr y \<longleftrightarrow> (\<exists>x. m = Inr x \<and> f x = Inr y)"
  by (cases m) simp_all

subsection \<open>The loops of the common prefix compute the longest common prefix\<close>

lemma take_eq_lcp:
  "k \<le> length a \<Longrightarrow> k \<le> length b \<Longrightarrow>
   take k a = take k b \<longleftrightarrow> k \<le> length (longest_common_prefix a b)"
proof (induction a arbitrary: b k)
  case Nil
  then show ?case by simp
next
  case (Cons x xs)
  show ?case
  proof (cases b)
    case Nil
    with Cons.prems show ?thesis by simp
  next
    case (Cons y ys)
    with Cons.prems Cons.IH [of _ ys] show ?thesis by (cases k) auto
  qed
qed

lemma shrink_eq:
  "c \<le> length nm \<Longrightarrow> c \<le> length first \<Longrightarrow>
   shrink nm first c = min c (length (longest_common_prefix nm first))"
proof (induction c)
  case 0
  then show ?case by simp
next
  case (Suc c)
  then show ?case using take_eq_lcp [of "Suc c" nm first] by (auto simp: min_def)
qed

lemma lcp_take:
  "longest_common_prefix a (take n b) = take n (longest_common_prefix a b)"
  by (induction a b arbitrary: n rule: longest_common_prefix.induct) (auto simp: take_Cons' )

lemma lcp_eq_take: "longest_common_prefix a b = take (length (longest_common_prefix a b)) b"
  using longest_common_prefix_prefix2 [of a b] by (metis append_eq_conv_conj prefix_def)

lemma length_lcp_le1: "length (longest_common_prefix a b) \<le> length a"
  using longest_common_prefix_prefix1 [of a b] by (rule prefix_length_le)

lemma fold_lcp_Nil [simp]: "fold longest_common_prefix ns [] = []"
  by (induction ns) simp_all

lemma lcp_Nil2 [simp]: "longest_common_prefix a [] = []"
  by (cases a) simp_all

lemma cut_loop_take:
  "n \<le> length first \<Longrightarrow>
   cut_loop first names n \<le> n \<and>
   take (cut_loop first names n) first = fold longest_common_prefix names (take n first)"
proof (induction names arbitrary: n)
  case Nil
  then show ?case by simp
next
  case (Cons nm rest)
  let ?l = "length (longest_common_prefix nm first)"
  let ?n' = "shrink nm first (min n (length nm))"
  have n': "?n' = min n ?l"
    using Cons.prems length_lcp_le1 [of nm first]
    by (simp add: shrink_eq min_def)
  have tk: "take ?n' first = longest_common_prefix nm (take n first)"
    unfolding n' lcp_take
    using lcp_eq_take [of nm first] by (metis take_take min.commute)
  show ?case
  proof (cases "?n' = 0")
    case True
    with tk have "longest_common_prefix nm (take n first) = []" by simp
    with True show ?thesis by (simp add: Let_def)
  next
    case False
    have le: "?n' \<le> length first" using n' Cons.prems by simp
    have eq: "cut_loop first (nm # rest) n = cut_loop first rest ?n'"
      using False by (simp add: Let_def)
    have le2: "?n' \<le> n" using n' by simp
    from Cons.IH [OF le] have "cut_loop first rest ?n' \<le> ?n'"
      and "take (cut_loop first rest ?n') first = fold longest_common_prefix rest (take ?n' first)"
      by blast+
    with le2 show ?thesis unfolding eq tk by simp
  qed
qed

lemma cut_loop_lcp_all:
  "cut_loop first (first # rest) (length first) = length (lcp_all (first # rest)) \<and>
   take (cut_loop first (first # rest) (length first)) first = lcp_all (first # rest)"
proof -
  have a: "cut_loop first (first # rest) (length first) \<le> length first"
    and b: "take (cut_loop first (first # rest) (length first)) first
            = fold longest_common_prefix (first # rest) (take (length first) first)"
    using cut_loop_take [of "length first" first "first # rest"] by simp_all
  have c: "longest_common_prefix first first = first" by (induction first) simp_all
  from b c have d: "take (cut_loop first (first # rest) (length first)) first = lcp_all (first # rest)"
    by simp
  from a d show ?thesis by (metis length_take min.absorb2 min.commute)
qed

lemma fold_lcp_prefix_init: "prefix (fold longest_common_prefix ns p) p"
proof (induction ns arbitrary: p)
  case Nil then show ?case by simp
next
  case (Cons a ns)
  show ?case using Cons.IH [of "longest_common_prefix a p"] longest_common_prefix_prefix2 [of a p]
    by (auto intro: prefix_order.trans)
qed

lemma fold_lcp_prefix_mem: "n \<in> set ns \<Longrightarrow> prefix (fold longest_common_prefix ns p) n"
proof (induction ns arbitrary: p)
  case Nil then show ?case by simp
next
  case (Cons a ns)
  show ?case
  proof (cases "n = a")
    case True
    then show ?thesis
      using fold_lcp_prefix_init [of ns "longest_common_prefix a p"] longest_common_prefix_prefix1 [of a p]
      by (auto intro: prefix_order.trans)
  next
    case False
    with Cons show ?thesis by simp
  qed
qed

lemma fold_lcp_max:
  "prefix q p \<Longrightarrow> (\<forall>n\<in>set ns. prefix q n) \<Longrightarrow> prefix q (fold longest_common_prefix ns p)"
  by (induction ns arbitrary: p) (simp_all add: longest_common_prefix_max_prefix)

lemma lcp_all_prefix: "n \<in> set ns \<Longrightarrow> prefix (lcp_all ns) n"
  by (cases ns) (auto simp: fold_lcp_prefix_init fold_lcp_prefix_mem)

lemma lcp_all_max: "ns \<noteq> [] \<Longrightarrow> (\<forall>n\<in>set ns. prefix q n) \<Longrightarrow> prefix q (lcp_all ns)"
  by (cases ns) (auto simp: fold_lcp_max)



lemma lcp_all_cong_set:
  assumes "set ks = set js" "ks \<noteq> []"
  shows "lcp_all ks = lcp_all js"
proof -
  from assms have js: "js \<noteq> []" by auto
  have "prefix (lcp_all ks) (lcp_all js)"
    using lcp_all_max [OF js, of "lcp_all ks"] lcp_all_prefix [of _ ks] assms(1) by blast
  moreover have "prefix (lcp_all js) (lcp_all ks)"
    using lcp_all_max [OF assms(2), of "lcp_all js"] lcp_all_prefix [of _ js] assms(1) by blast
  ultimately show ?thesis by (rule prefix_order.antisym)
qed

subsection \<open>Lookups and dictionaries\<close>

lemma lookup_all_Inr:
  "set names \<subseteq> dom arrays \<Longrightarrow> lookup_all arrays names = Inr (map (\<lambda>n. the (arrays n)) names)"
  by (induction names) (auto simp: getitem_def)

lemma lookup_all_eq_Inr:
  "lookup_all arrays names = Inr vs \<Longrightarrow> set names \<subseteq> dom arrays"
proof (induction names arbitrary: vs)
  case Nil then show ?case by simp
next
  case (Cons n ns)
  then show ?case by (auto simp: bind_eq_Inr getitem_def split: option.splits)
qed

lemma zip_map_self: "zip (map f xs) (map g xs) = map (\<lambda>x. (f x, g x)) xs"
  by (induction xs) simp_all

lemma dict_from_Inr:
  "set names \<subseteq> dom arrays \<Longrightarrow>
   dict_from key arrays names = Inr (dict (map (\<lambda>n. (key n, the (arrays n))) names))"
  by (simp add: dict_from_def lookup_all_Inr zip_map_self)

lemma dict_from_eq_Inr:
  "dict_from key arrays names = Inr d \<Longrightarrow> set names \<subseteq> dom arrays"
  by (auto simp: dict_from_def bind_eq_Inr dest: lookup_all_eq_Inr)

subsection \<open>The name of a cluster\<close>

lemma name_cluster_lcp:
  assumes "jagged \<noteq> []" "set jagged \<subseteq> dom arrays"
  shows "name_cluster arrays number jagged =
     Inr (if lcp_all jagged = []
          then (''jagged'' @ str number, Zip (dict (map (\<lambda>n. (n, the (arrays n))) jagged)) None)
          else (strip (lcp_all jagged) ''_./'',
                Zip (dict (map (\<lambda>n. (strip (drop (length (lcp_all jagged)) n) ''_./'', the (arrays n)))
                       jagged)) None))"
proof -
  from assms(1) obtain first rest where j: "jagged = first # rest" by (cases jagged) auto
  have c: "cut_loop first (first # rest) (length first) = length (lcp_all (first # rest))"
    and t: "take (cut_loop first (first # rest) (length first)) first = lcp_all (first # rest)"
    using cut_loop_lcp_all [of first rest] by blast+
  show ?thesis
    using assms(2) t unfolding name_cluster_def j list.case Let_def c
    by (simp add: dict_from_Inr del: cut_loop.simps lcp_all.simps)
qed

lemma name_cluster_eq_Inr:
  "name_cluster arrays number jagged = Inr r \<Longrightarrow> jagged \<noteq> [] \<and> set jagged \<subseteq> dom arrays"
  by (auto simp: name_cluster_def Let_def bind_eq_Inr split: list.splits if_splits
           dest!: dict_from_eq_Inr)

subsection \<open>Separator stripping\<close>

lemma rstrip_prefix: "prefix (rev (dropWhile P (rev s))) s"
  using suffix_dropWhile [of P "rev s"] by (simp add: suffix_to_prefix)

lemma strip_prefix:
  assumes "\<not> starts_with_separator r"
  shows "prefix (strip r ''_./'') r"
proof -
  have "dropWhile (\<lambda>c. c \<in> set ''_./'') r = r"
    using assms unfolding starts_with_separator_def by (cases r) (simp_all del: set_simps)
  then show ?thesis unfolding strip_def by (simp add: rstrip_prefix del: set_simps)
qed

subsection \<open>Common names of the clusters\<close>

text \<open>
  Claim C1, as the code has it.  The common prefix of a cluster is the longest common
  leading-character prefix of all its member names.  When that prefix is empty (before
  any stripping) the cluster is named \<open>jagged<cluster-index>\<close> and its fields are zipped
  under their original names.  Otherwise the common name is the prefix with its leading
  and its trailing separator characters stripped (it may be empty), and the sub-field name
  of each member is the member name without the prefix, with leading and trailing
  separator characters stripped.
\<close>

theorem name_cluster_common_name:
  assumes "jagged \<noteq> []" "set jagged \<subseteq> dom arrays"
  shows "name_cluster arrays number jagged =
     Inr (if lcp_all jagged = []
          then (''jagged'' @ str number, Zip (dict (map (\<lambda>n. (n, the (arrays n))) jagged)) None)
          else (strip (lcp_all jagged) ''_./'',
                Zip (dict (map (\<lambda>n. (strip (drop (length (lcp_all jagged)) n) ''_./'', the (arrays n)))
                       jagged)) None))"
  using assms by (rule name_cluster_lcp)

theorem name_cluster_common_name_witness:
  "name_cluster muon_arrays 0 [''muon_pt'', ''muon_eta''] =
     Inr (''muon'', Zip [(''pt'', jag [0, 2, 3] [1.0, 2.0, 3.0]),
                         (''eta'', jag [0, 2, 3] [0.1, 0.2, 0.3])] None) \<and>
   name_cluster muon_arrays 7 [''muon_pt'', ''event_id''] =
     Inr (''jagged7'', Zip [(''muon_pt'', jag [0, 2, 3] [1.0, 2.0, 3.0]),
                            (''event_id'', Array (NumpyArray [10, 11] None))] None)"
  using name_cluster_common_name [of "[''muon_pt'', ''muon_eta'']" muon_arrays 0]
    name_cluster_common_name [of "[''muon_pt'', ''event_id'']" muon_arrays 7]
  by (simp add: muon_arrays_def strip_def dict_def str.simps digit_def)

text \<open>
  The claim as stated fails.  The common prefix \<open>_\<close> of \<open>_a\<close> and \<open>_b\<close> has zero length after
  stripping, and the cluster is named by the empty string with the sub-fields \<open>a\<close> and \<open>b\<close>,
  not \<open>jagged0\<close> with the original names.  The common prefix \<open>_mu_\<close> of \<open>_mu_pt_\<close> and
  \<open>_mu_eta_\<close> without its trailing separators is \<open>_mu\<close>, and the common name is \<open>mu\<close>; the
  names without the prefix are \<open>pt_\<close> and \<open>eta_\<close>, and the sub-fields are \<open>pt\<close> and \<open>eta\<close>.
\<close>

theorem name_cluster_counterexample:
  "rstrip (lcp_all [''_a'', ''_b'']) ''_./'' = [] \<and>
   name_cluster [''_a'' \<mapsto> Array (NumpyArray [1::int] None), ''_b'' \<mapsto> Array (NumpyArray [2] None)]
       0 [''_a'', ''_b''] =
     Inr ([], Zip [(''a'', Array (NumpyArray [1] None)), (''b'', Array (NumpyArray [2] None))] None) \<and>
   lcp_all [''_mu_pt_'', ''_mu_eta_''] = ''_mu_'' \<and>
   rstrip ''_mu_'' ''_./'' = ''_mu'' \<and>
   name_cluster [''_mu_pt_'' \<mapsto> Array (NumpyArray [1::int] None),
                 ''_mu_eta_'' \<mapsto> Array (NumpyArray [2] None)] 0 [''_mu_pt_'', ''_mu_eta_''] =
     Inr (''mu'', Zip [(''pt'', Array (NumpyArray [1] None)), (''eta'', Array (NumpyArray [2] None))] None)"
  by (simp add: name_cluster_def rstrip_def strip_def dict_def dict_from_def getitem_def Let_def)

text \<open>
  Claim C10: a cluster of exactly one jagged field, whose name has a character that is not
  a separator, is named by the whole field name with its leading and trailing separators
  stripped, and its sub-record has exactly one field, named by the empty string.
\<close>

theorem single_member_cluster:
  assumes "\<exists>c\<in>set nm. c \<notin> set ''_./''" and "arrays nm = Some a"
  shows "name_cluster arrays number [nm] = Inr (strip nm ''_./'', Zip [([], a)] None)"
proof -
  from assms(1) have ne: "nm \<noteq> []" by auto
  from assms(2) have sub: "set [nm] \<subseteq> dom arrays" by auto
  have "lcp_all [nm] = nm" by simp
  with name_cluster_lcp [of "[nm]" arrays number] ne sub assms(2)
  show ?thesis by (simp add: strip_def dict_def)
qed

theorem single_member_cluster_witness:
  "(\<exists>c\<in>set ''muon_pt''. c \<notin> set ''_./'') \<and>
   name_cluster muon_arrays 0 [''muon_pt''] =
     Inr (''muon_pt'', Zip [([], jag [0, 2, 3] [1.0, 2.0, 3.0])] None)"
  using single_member_cluster [of "''muon_pt''" muon_arrays "jag [0, 2, 3] [1.0, 2.0, 3.0]" 0]
  by (simp add: muon_arrays_def strip_def)

subsection \<open>Stripping once more\<close>

lemma keys_foldl_update:
  "fst ` set (foldl (\<lambda>d (k, v). AList.update k v d) d0 kvs) = fst ` set d0 \<union> fst ` set kvs"
proof (induction kvs arbitrary: d0)
  case Nil then show ?case by simp
next
  case (Cons kv kvs)
  show ?case by (cases kv) (auto simp: Cons.IH AList.dom_update)
qed

lemma keys_dict: "fst ` set (dict kvs) = fst ` set kvs"
  by (simp add: dict_def keys_foldl_update)

lemma map_of_foldl_update:
  "map_of (foldl (\<lambda>d (k, v). AList.update k v d) d0 kvs) = map_of d0 ++ map_of (rev kvs)"
proof (induction kvs arbitrary: d0)
  case Nil then show ?case by simp
next
  case (Cons kv kvs)
  show ?case by (cases kv) (simp add: Cons.IH AList.update_conv' map_add_upd_left fun_eq_iff map_add_def split: option.splits)
qed

lemma map_of_dict: "map_of (dict kvs) = map_of (rev kvs)"
  by (simp add: dict_def map_of_foldl_update)

lemma lcp_remainders:
  assumes "jagged \<noteq> []"
  shows "lcp_all (map (drop (length (lcp_all jagged))) jagged) = []"
proof -
  let ?P = "lcp_all jagged"
  let ?q = "lcp_all (map (drop (length ?P)) jagged)"
  have "prefix (?P @ ?q) n" if n: "n \<in> set jagged" for n
  proof -
    from n have "prefix ?P n" by (rule lcp_all_prefix)
    then have e: "n = ?P @ drop (length ?P) n" by (metis append_eq_conv_conj prefix_def)
    from n have "prefix ?q (drop (length ?P) n)" by (intro lcp_all_prefix) simp
    with e show ?thesis by (metis same_prefix_prefix)
  qed
  then have "prefix (?P @ ?q) ?P" using lcp_all_max [OF assms] by blast
  then show ?thesis by (metis append_Nil2 prefix_order.antisym prefixI same_prefix_prefix)
qed

lemma lcp_stripped_remainders:
  assumes "jagged \<noteq> []"
    and "\<forall>nm\<in>set jagged. \<not> starts_with_separator (drop (length (lcp_all jagged)) nm)"
  shows "lcp_all (map (\<lambda>n. strip (drop (length (lcp_all jagged)) n) ''_./'') jagged) = []"
proof -
  let ?k = "length (lcp_all jagged)"
  let ?q = "lcp_all (map (\<lambda>n. strip (drop ?k n) ''_./'') jagged)"
  have "prefix ?q r" if r: "r \<in> set (map (drop ?k) jagged)" for r
  proof -
    from r obtain n where n: "n \<in> set jagged" and rn: "r = drop ?k n" by auto
    from n have "prefix ?q (strip (drop ?k n) ''_./'')" by (intro lcp_all_prefix) simp
    moreover from n assms(2) have "prefix (strip (drop ?k n) ''_./'') (drop ?k n)"
      by (intro strip_prefix) blast
    ultimately show ?thesis unfolding rn by (rule prefix_order.trans)
  qed
  then have "prefix ?q (lcp_all (map (drop ?k) jagged))"
    using lcp_all_max [of "map (drop ?k) jagged" ?q] assms(1) by simp
  then show ?thesis using lcp_remainders [OF assms(1)] by simp
qed

lemma cut_loop_hd:
  assumes "ks \<noteq> []"
  shows "cut_loop (hd ks) ks (length (hd ks)) = length (lcp_all ks)"
  using assms cut_loop_lcp_all [of "hd ks" "tl ks"] by simp

text \<open>
  Claim C6, as the code has it.  When the common prefix of a cluster is empty, or no member
  name begins with a separator character once the longest common prefix is removed, the
  loops of the common prefix, run again on the sub-field names of the cluster's
  sub-record, end with \<open>cut = 0\<close>: nothing more can be stripped.
\<close>

theorem suffix_names_no_common_prefix:
  assumes "name_cluster arrays number jagged = Inr (common, sub)"
    and "lcp_all jagged \<noteq> [] \<longrightarrow>
           (\<forall>nm\<in>set jagged. \<not> starts_with_separator (drop (length (lcp_all jagged)) nm))"
  shows "cut_loop (hd (field_names sub)) (field_names sub) (length (hd (field_names sub))) = 0"
proof -
  from assms(1) have ne: "jagged \<noteq> []" and sub: "set jagged \<subseteq> dom arrays"
    using name_cluster_eq_Inr by blast+
  define key where "key = (if lcp_all jagged = [] then (\<lambda>n. n)
    else (\<lambda>n. strip (drop (length (lcp_all jagged)) n) ''_./''))"
  have "sub = Zip (dict (map (\<lambda>n. (key n, the (arrays n))) jagged)) None"
    using assms(1) name_cluster_lcp [OF ne sub, of number]
    by (simp add: key_def split: if_splits)
  then have "set (field_names sub) = fst ` set (map (\<lambda>n. (key n, the (arrays n))) jagged)"
    by (simp add: keys_dict)
  then have f: "set (field_names sub) = set (map key jagged)"
    by (simp add: image_image)
  with ne have fne: "field_names sub \<noteq> []" by auto
  have "lcp_all (map key jagged) = []"
  proof (cases "lcp_all jagged = []")
    case True
    then show ?thesis by (simp add: key_def)
  next
    case False
    with assms(2) have "\<forall>nm\<in>set jagged. \<not> starts_with_separator (drop (length (lcp_all jagged)) nm)"
      by blast
    from lcp_stripped_remainders [OF ne this] False show ?thesis by (simp add: key_def)
  qed
  with f fne have "lcp_all (field_names sub) = []"
    using lcp_all_cong_set [of "field_names sub" "map key jagged"] by simp
  with fne show ?thesis by (simp add: cut_loop_hd del: cut_loop.simps lcp_all.simps)
qed

theorem suffix_names_no_common_prefix_witness:
  "name_cluster muon_arrays 0 [''muon_pt'', ''muon_eta''] =
     Inr (''muon'', Zip [(''pt'', jag [0, 2, 3] [1.0, 2.0, 3.0]),
                         (''eta'', jag [0, 2, 3] [0.1, 0.2, 0.3])] None) \<and>
   lcp_all [''muon_pt'', ''muon_eta''] = ''muon_'' \<and>
   \<not> starts_with_separator ''pt'' \<and> \<not> starts_with_separator ''eta'' \<and>
   cut_loop ''pt'' [''pt'', ''eta''] 2 = 0"
proof -
  have a: "name_cluster muon_arrays 0 [''muon_pt'', ''muon_eta''] =
     Inr (''muon'', Zip [(''pt'', jag [0, 2, 3] [1.0, 2.0, 3.0]),
                         (''eta'', jag [0, 2, 3] [0.1, 0.2, 0.3])] None)"
    by (simp add: name_cluster_def muon_arrays_def strip_def dict_def dict_from_def getitem_def Let_def)
  have b: "lcp_all [''muon_pt'', ''muon_eta''] \<noteq> [] \<longrightarrow>
     (\<forall>nm\<in>set [''muon_pt'', ''muon_eta''].
        \<not> starts_with_separator (drop (length (lcp_all [''muon_pt'', ''muon_eta''])) nm))"
    by (simp add: starts_with_separator_def)
  from suffix_names_no_common_prefix [OF a b] a show ?thesis
    by (simp add: starts_with_separator_def)
qed

text \<open>
  The claim as stated fails: stripping also removes the separators that begin a remainder.
  The names \<open>a_xb\<close> and \<open>a.xc\<close> have the common prefix \<open>a\<close>; the sub-field names are \<open>xb\<close>
  and \<open>xc\<close>, whose common prefix \<open>x\<close> is not empty.
\<close>

theorem suffix_names_counterexample:
  "name_cluster [''a_xb'' \<mapsto> Array (NumpyArray [1::int] None), ''a.xc'' \<mapsto> Array (NumpyArray [2] None)]
       0 [''a_xb'', ''a.xc''] =
     Inr (''a'', Zip [(''xb'', Array (NumpyArray [1] None)), (''xc'', Array (NumpyArray [2] None))] None) \<and>
   cut_loop ''xb'' [''xb'', ''xc''] (length ''xb'') = 1 \<and>
   lcp_all [''xb'', ''xc''] = ''x''"
  by (simp add: name_cluster_def strip_def dict_def dict_from_def getitem_def Let_def)

subsection \<open>The clustering loop\<close>

lemma first_seen_snoc:
  "first_seen (xs @ [a]) = (if a \<in> set (first_seen xs) then first_seen xs else first_seen xs @ [a])"
  by (simp add: first_seen_def)

lemma first_seen_Nil [simp]: "first_seen [] = []"
  by (simp add: first_seen_def)

lemma set_first_seen: "set (first_seen xs) = set xs"
  by (induction xs rule: rev_induct) (auto simp: first_seen_snoc)

lemma distinct_first_seen: "distinct (first_seen xs)"
  by (induction xs rule: rev_induct) (auto simp: first_seen_snoc)

lemma place_map:
  "distinct os \<Longrightarrow>
   place a nm os (map f os) =
     (if a \<in> set os then Some (map (\<lambda>b. if b = a then f b @ [nm] else f b) os) else None)"
proof (induction os)
  case Nil
  then show ?case by simp
next
  case (Cons b os)
  then show ?case by auto
qed

lemma jagged_names_snoc:
  "jagged_names (pre @ [(nm, ctx)]) = (if is_jagged ctx then jagged_names pre @ [nm] else jagged_names pre)"
  by (simp add: jagged_names_def)

lemma nonjagged_names_snoc:
  "nonjagged_names (pre @ [(nm, ctx)]) =
     (if is_jagged ctx then nonjagged_names pre else nonjagged_names pre @ [nm])"
  by (simp add: nonjagged_names_def)

lemma cluster_step_spec:
  assumes "cluster_step arrays (spec_clusters arrays pre) nc = Inr st'"
  shows "st' = spec_clusters arrays (pre @ [nc])"
proof -
  obtain nm ctx where nc: "nc = (nm, ctx)" by (cases nc)
  let ?off = "offsets_of arrays"
  let ?jn = "jagged_names pre"
  let ?os = "first_seen (map ?off ?jn)"
  let ?f = "\<lambda>jn a. filter (\<lambda>n. ?off n = a) jn"
  from assms obtain array where arr: "getitem arrays nm = Inr array"
    by (auto simp: cluster_step_def nc spec_clusters_def Let_def bind_eq_Inr)
  show ?thesis
  proof (cases "is_jagged ctx")
    case False
    with assms arr show ?thesis
      by (simp add: cluster_step_def nc spec_clusters_def Let_def jagged_names_snoc nonjagged_names_snoc)
  next
    case True
    with assms arr obtain a where lo: "layout_offsets array = Inr a"
      by (auto simp: cluster_step_def nc spec_clusters_def Let_def bind_eq_Inr)
    with arr have off: "?off nm = a" by (simp add: offsets_of_def)
    have d: "distinct ?os" by (rule distinct_first_seen)
    have pl: "place a nm ?os (map (?f ?jn) ?os) =
      (if a \<in> set ?os then Some (map (\<lambda>b. if b = a then ?f ?jn b @ [nm] else ?f ?jn b) ?os) else None)"
      by (rule place_map [OF d])
    have upd: "map (\<lambda>b. if b = a then ?f ?jn b @ [nm] else ?f ?jn b) ?os = map (?f (?jn @ [nm])) ?os"
      using off by auto
    have new: "a \<notin> set ?os \<Longrightarrow> map (?f (?jn @ [nm])) ?os = map (?f ?jn) ?os"
      using off by (auto simp: set_first_seen image_iff)
    have self: "a \<notin> set ?os \<Longrightarrow> ?f (?jn @ [nm]) a = [nm]"
      using off by (auto simp: set_first_seen filter_empty_conv image_iff)
    have "st' = (if ?os = [] then (nonjagged_names pre, ?os @ [a], map (?f ?jn) ?os @ [[nm]])
       else if a \<in> set ?os
         then (nonjagged_names pre, ?os, map (\<lambda>b. if b = a then ?f ?jn b @ [nm] else ?f ?jn b) ?os)
       else (nonjagged_names pre, ?os @ [a], map (?f ?jn) ?os @ [[nm]]))"
      using assms arr lo True pl
      by (simp add: cluster_step_def nc spec_clusters_def Let_def split: if_splits)
    then have st: "st' = (if ?os = [] then (nonjagged_names pre, ?os @ [a], map (?f ?jn) ?os @ [[nm]])
       else if a \<in> set ?os then (nonjagged_names pre, ?os, map (?f (?jn @ [nm])) ?os)
       else (nonjagged_names pre, ?os @ [a], map (?f ?jn) ?os @ [[nm]]))"
      by (simp only: upd)
    show ?thesis
    proof (cases "a \<in> set ?os")
      case True
      then have "?os \<noteq> []" by auto
      with st True \<open>is_jagged ctx\<close> off show ?thesis
        by (simp add: nc spec_clusters_def Let_def jagged_names_snoc nonjagged_names_snoc first_seen_snoc)
    next
      case False
      with st have "st' = (nonjagged_names pre, ?os @ [a], map (?f ?jn) ?os @ [[nm]])" by simp
      with False \<open>is_jagged ctx\<close> off new self show ?thesis
        by (simp add: nc spec_clusters_def Let_def jagged_names_snoc nonjagged_names_snoc first_seen_snoc)
    qed
  qed
qed

lemma cluster_loop_spec:
  "cluster_loop arrays ec (spec_clusters arrays pre) = Inr st' \<Longrightarrow>
   st' = spec_clusters arrays (pre @ ec)"
proof (induction ec arbitrary: pre)
  case Nil
  then show ?case by simp
next
  case (Cons nc ec)
  from Cons.prems obtain st where s: "cluster_step arrays (spec_clusters arrays pre) nc = Inr st"
    and l: "cluster_loop arrays ec st = Inr st'"
    by (auto simp: bind_eq_Inr)
  from cluster_step_spec [OF s] have "st = spec_clusters arrays (pre @ [nc])" .
  with l Cons.IH [of "pre @ [nc]"] show ?case by simp
qed

lemma spec_clusters_Nil: "spec_clusters arrays [] = ([], [], [])"
  by (simp add: spec_clusters_def jagged_names_def nonjagged_names_def)

lemma cluster_step_offsets:
  assumes "cluster_step arrays st (nm, ctx) = Inr st'" and "is_jagged ctx"
  shows "\<exists>array. arrays nm = Some array \<and> layout_offsets array = Inr (offsets_of arrays nm)"
proof -
  obtain nj os js where st: "st = (nj, os, js)" using prod_cases3 by blast
  from assms obtain array a where "getitem arrays nm = Inr array" and "layout_offsets array = Inr a"
    unfolding st by (auto simp: cluster_step_def bind_eq_Inr)
  then show ?thesis by (auto simp: offsets_of_def getitem_def split: option.splits)
qed

lemma cluster_loop_offsets:
  "cluster_loop arrays ec st = Inr st' \<Longrightarrow> nm \<in> set (jagged_names ec) \<Longrightarrow>
   \<exists>array. arrays nm = Some array \<and> layout_offsets array = Inr (offsets_of arrays nm)"
proof (induction ec arbitrary: st)
  case Nil
  then show ?case by (simp add: jagged_names_def)
next
  case (Cons nc ec)
  obtain n ctx where nc: "nc = (n, ctx)" by (cases nc)
  from Cons.prems(1) obtain st1 where s: "cluster_step arrays st (n, ctx) = Inr st1"
    and l: "cluster_loop arrays ec st1 = Inr st'"
    by (auto simp: bind_eq_Inr nc)
  show ?case
  proof (cases "nm \<in> set (jagged_names ec)")
    case True
    with Cons.IH [OF l] show ?thesis by blast
  next
    case False
    with Cons.prems(2) have "nm = n" and "is_jagged ctx"
      by (auto simp: jagged_names_def nc split: if_splits)
    with cluster_step_offsets [OF s] show ?thesis by blast
  qed
qed

lemma cluster_loop_eq:
  "cluster_loop arrays ec ([], [], []) = Inr st \<Longrightarrow> st = spec_clusters arrays ec"
  using cluster_loop_spec [of arrays ec "[]" st] by (simp add: spec_clusters_Nil)

text \<open>
  Claim C5.  When the clustering loop returns, its clusters are those of the
  specification: the offsets of the clusters are the distinct offsets arrays of the jagged
  fields in first-seen order (a new one appended at the end), each cluster holds, in the
  order of the expression context, the jagged names whose offsets equal the cluster's, and
  so two jagged fields are in one cluster exactly when their offsets are equal, whatever
  their names.  The offsets compared are those of the finalized arrays: every jagged name
  has an array with offsets.
\<close>

theorem clusters_by_offsets:
  assumes "cluster_loop arrays ec ([], [], []) = Inr (nonjagged, offsets, jaggeds)"
  shows "offsets = first_seen (map (offsets_of arrays) (jagged_names ec)) \<and>
         jaggeds = map (\<lambda>a. filter (\<lambda>n. offsets_of arrays n = a) (jagged_names ec)) offsets \<and>
         (\<forall>n1\<in>set (jagged_names ec). \<forall>n2\<in>set (jagged_names ec).
            (\<exists>j\<in>set jaggeds. n1 \<in> set j \<and> n2 \<in> set j) \<longleftrightarrow>
            offsets_of arrays n1 = offsets_of arrays n2) \<and>
         (\<forall>n\<in>set (jagged_names ec).
            \<exists>array. arrays n = Some array \<and> layout_offsets array = Inr (offsets_of arrays n))"
proof -
  from cluster_loop_eq [OF assms]
  have o: "offsets = first_seen (map (offsets_of arrays) (jagged_names ec))"
    and j: "jaggeds = map (\<lambda>a. filter (\<lambda>n. offsets_of arrays n = a) (jagged_names ec)) offsets"
    by (simp_all add: spec_clusters_def Let_def)
  have so: "set offsets = offsets_of arrays ` set (jagged_names ec)"
    unfolding o by (simp add: set_first_seen)
  show ?thesis
  proof (intro conjI ballI)
    fix n1 n2 assume n: "n1 \<in> set (jagged_names ec)" "n2 \<in> set (jagged_names ec)"
    show "(\<exists>j\<in>set jaggeds. n1 \<in> set j \<and> n2 \<in> set j) \<longleftrightarrow>
            offsets_of arrays n1 = offsets_of arrays n2"
      unfolding j using n so by auto
  next
    fix n assume "n \<in> set (jagged_names ec)"
    with cluster_loop_offsets [OF assms]
    show "\<exists>array. arrays n = Some array \<and> layout_offsets array = Inr (offsets_of arrays n)"
      by blast
  qed (rule o, rule j)
qed

text \<open>
  The loop returns when every name has an array and every array of a jagged field has
  offsets.
\<close>

lemma cluster_step_total:
  assumes "getitem arrays nm = Inr array"
    and "is_jagged ctx \<Longrightarrow> \<exists>a. layout_offsets array = Inr a"
  shows "\<exists>st'. cluster_step arrays st (nm, ctx) = Inr st'"
proof -
  obtain nj os js where st: "st = (nj, os, js)" using prod_cases3 by blast
  show ?thesis
  proof (cases "is_jagged ctx")
    case True
    with assms(2) obtain a where "layout_offsets array = Inr a" by blast
    with assms(1) True show ?thesis
      unfolding st by (auto simp: cluster_step_def split: option.splits)
  next
    case False
    with assms(1) show ?thesis unfolding st by (auto simp: cluster_step_def)
  qed
qed

lemma cluster_loop_total:
  assumes "\<forall>nc\<in>set ec. \<exists>array. arrays (fst nc) = Some array \<and>
             (is_jagged (snd nc) \<longrightarrow> (\<exists>a. layout_offsets array = Inr a))"
  shows "\<exists>st'. cluster_loop arrays ec st = Inr st'"
  using assms
proof (induction ec arbitrary: st)
  case Nil
  show ?case by (simp del: split_paired_Ex)
next
  case (Cons nc ec)
  obtain nm ctx where nc: "nc = (nm, ctx)" by (cases nc)
  from Cons.prems nc obtain array where "arrays nm = Some array"
    and "is_jagged ctx \<longrightarrow> (\<exists>a. layout_offsets array = Inr a)" by auto
  then obtain st1 where "cluster_step arrays st (nm, ctx) = Inr st1"
    using cluster_step_total [of arrays nm array ctx st] by (auto simp: getitem_def)
  moreover from Cons.IH [of st1] Cons.prems obtain st' where "cluster_loop arrays ec st1 = Inr st'"
    by auto
  ultimately show ?case by (simp add: nc del: split_paired_Ex)
qed

theorem clusters_by_offsets_witness:
  "cluster_loop jet_arrays jet_context ([], [], []) =
     Inr ([''event_id''], [[0, 2, 3], [0, 1, 4]], [[''muon_pt'', ''muon_eta''], [''jet_pt'']]) \<and>
   first_seen (map (offsets_of jet_arrays) (jagged_names jet_context)) = [[0, 2, 3], [0, 1, 4]] \<and>
   offsets_of jet_arrays ''muon_pt'' = offsets_of jet_arrays ''muon_eta'' \<and>
   offsets_of jet_arrays ''muon_pt'' \<noteq> offsets_of jet_arrays ''jet_pt''"
proof -
  have a: "cluster_loop jet_arrays jet_context ([], [], []) =
     Inr ([''event_id''], [[0, 2, 3], [0, 1, 4]], [[''muon_pt'', ''muon_eta''], [''jet_pt'']])"
    by (simp add: jet_arrays_def jet_context_def muon_arrays_def jag_def cluster_step_def getitem_def)
  have b: "offsets_of jet_arrays ''muon_pt'' = offsets_of jet_arrays ''muon_eta'' \<and>
     offsets_of jet_arrays ''muon_pt'' \<noteq> offsets_of jet_arrays ''jet_pt''"
    by (simp add: jet_arrays_def muon_arrays_def jag_def offsets_of_def getitem_def)
  from clusters_by_offsets [OF a]
  have "first_seen (map (offsets_of jet_arrays) (jagged_names jet_context)) = [[0, 2, 3], [0, 1, 4]]"
    by simp
  with a b show ?thesis by auto
qed

subsection \<open>Attaching the sub-records\<close>

lemma setitem_field_twice:
  "setitem_field c sub (setitem_field c sub fs) = setitem_field c sub fs"
  by (simp add: setitem_field_def)

lemma with_field_loop_Zip:
  "with_field_loop js sub c (Zip fs d) =
     Inr (Zip (if js = [] then fs else setitem_field c sub fs) d)"
  by (induction js arbitrary: fs) (simp_all add: setitem_field_twice)

text \<open>Attaching the named clusters one after the other to a field table.\<close>

lemma setitem_field_new:
  "c \<notin> fst ` set fs \<Longrightarrow> setitem_field c sub fs = fs @ [(c, sub)]"
  by (auto simp: setitem_field_def filter_id_conv)

lemma attach_all_distinct:
  "distinct (map fst named) \<Longrightarrow> fst ` set fs \<inter> fst ` set named = {} \<Longrightarrow>
   foldl (\<lambda>fs (c, sub). setitem_field c sub fs) fs named = fs @ named"
proof (induction named arbitrary: fs)
  case Nil
  then show ?case by simp
next
  case (Cons cs named)
  obtain c sub where cs: "cs = (c, sub)" by (cases cs)
  from Cons.prems cs have new: "c \<notin> fst ` set fs" by auto
  from Cons.prems cs have d: "distinct (map fst named)" and c: "c \<notin> fst ` set named" by auto
  from Cons.prems cs c have "fst ` set (fs @ [(c, sub)]) \<inter> fst ` set named = {}" by auto
  from Cons.IH [OF d this] new show ?case by (simp add: cs setitem_field_new)
qed

lemma named_clusters_Cons:
  "named_clusters arrays number (j # js) =
     (case name_cluster arrays number j of Inr named \<Rightarrow> named | Inl e \<Rightarrow> ([], Zip [] None))
       # named_clusters arrays (Suc number) js"
  by (simp add: named_clusters_def)

lemma named_clusters_Nil [simp]: "named_clusters arrays number [] = []"
  by (simp add: named_clusters_def)

lemma length_named_clusters [simp]: "length (named_clusters arrays number js) = length js"
  by (simp add: named_clusters_def)

lemma attach_Some:
  "attach arrays number jaggeds (Some (Zip fs d)) = Inr out \<Longrightarrow>
   out = Some (Zip (foldl (\<lambda>fs (c, sub). setitem_field c sub fs) fs
                     (named_clusters arrays number jaggeds)) d) \<and>
   (\<forall>i<length jaggeds.
      name_cluster arrays (number + i) (jaggeds ! i) = Inr (named_clusters arrays number jaggeds ! i))"
proof (induction jaggeds arbitrary: number fs)
  case Nil
  then show ?case by auto
next
  case (Cons j js)
  from Cons.prems obtain c s where nc: "name_cluster arrays number j = Inr (c, s)"
    by (auto simp: bind_eq_Inr)
  then have jne: "j \<noteq> []" using name_cluster_eq_Inr by blast
  from Cons.prems nc jne
  have rest: "attach arrays (Suc number) js (Some (Zip (setitem_field c s fs) d)) = Inr out"
    by (simp add: with_field_loop_Zip)
  from Cons.IH [OF rest]
  have o: "out = Some (Zip (foldl (\<lambda>fs (c, sub). setitem_field c sub fs) (setitem_field c s fs)
                             (named_clusters arrays (Suc number) js)) d)"
    and n: "\<forall>i<length js. name_cluster arrays (Suc number + i) (js ! i)
              = Inr (named_clusters arrays (Suc number) js ! i)"
    by blast+
  have nm: "named_clusters arrays number (j # js) = (c, s) # named_clusters arrays (Suc number) js"
    by (simp add: named_clusters_Cons nc)
  have "\<forall>i<length (j # js). name_cluster arrays (number + i) ((j # js) ! i)
      = Inr (named_clusters arrays number (j # js) ! i)"
  proof (intro allI impI)
    fix i assume "i < length (j # js)"
    then show "name_cluster arrays (number + i) ((j # js) ! i)
      = Inr (named_clusters arrays number (j # js) ! i)"
      using n nc unfolding nm by (cases i) auto
  qed
  with o show ?case unfolding nm by simp
qed

lemma attach_None:
  assumes a: "attach arrays number jaggeds None = Inr out"
  shows "(if jaggeds = [] then out = None
    else out = Some (Zip (foldl (\<lambda>fs (c, sub). setitem_field c sub fs) []
                            (named_clusters arrays number jaggeds)) (Some 1))) \<and>
   (\<forall>i<length jaggeds.
      name_cluster arrays (number + i) (jaggeds ! i) = Inr (named_clusters arrays number jaggeds ! i))"
proof (cases jaggeds)
  case Nil
  with a show ?thesis by auto
next
  case (Cons j js)
  from a Cons obtain c s where nc: "name_cluster arrays number j = Inr (c, s)"
    by (auto simp: bind_eq_Inr)
  from a Cons nc
  have rest: "attach arrays (Suc number) js (Some (Zip [(c, s)] (Some 1))) = Inr out"
    by simp
  from attach_Some [OF rest]
  have o: "out = Some (Zip (foldl (\<lambda>fs (c, sub). setitem_field c sub fs) [(c, s)]
                             (named_clusters arrays (Suc number) js)) (Some 1))"
    and n: "\<forall>i<length js. name_cluster arrays (Suc number + i) (js ! i)
              = Inr (named_clusters arrays (Suc number) js ! i)"
    by blast+
  have nm: "named_clusters arrays number (j # js) = (c, s) # named_clusters arrays (Suc number) js"
    by (simp add: named_clusters_Cons nc)
  have "\<forall>i<length (j # js). name_cluster arrays (number + i) ((j # js) ! i)
      = Inr (named_clusters arrays number (j # js) ! i)"
  proof (intro allI impI)
    fix i assume "i < length (j # js)"
    then show "name_cluster arrays (number + i) ((j # js) ! i)
      = Inr (named_clusters arrays number (j # js) ! i)"
      using n nc unfolding nm by (cases i) auto
  qed
  with o show ?thesis unfolding Cons nm by (simp add: setitem_field_def)
qed

subsection \<open>The record built by the zip mode\<close>

lemma names_Nil_iff: "jagged_names ec = [] \<and> nonjagged_names ec = [] \<longleftrightarrow> ec = []"
proof
  assume a: "jagged_names ec = [] \<and> nonjagged_names ec = []"
  have "length (jagged_names ec) + length (nonjagged_names ec) = length ec"
    unfolding jagged_names_def nonjagged_names_def length_map
    by (rule sum_length_filter_compl)
  with a show "ec = []" by simp
next
  assume "ec = []"
  then show "jagged_names ec = [] \<and> nonjagged_names ec = []"
    by (simp add: jagged_names_def nonjagged_names_def)
qed

lemma first_seen_eq_Nil: "first_seen xs = [] \<longleftrightarrow> xs = []"
  using set_first_seen [of xs] by (metis set_empty)

lemma dict_from_id_eq:
  assumes "dict_from (\<lambda>n. n) arrays names = Inr d"
  shows "d = dict (map (\<lambda>n. (n, the (arrays n))) names)"
  using assms dict_from_Inr [OF dict_from_eq_Inr [OF assms], of "\<lambda>n. n"] by simp

text \<open>
  What the zip mode returns on any expression context with a field: the dictionary of the
  non-jagged fields, with the named clusters attached one after the other.
\<close>

lemma group_zip_fields:
  assumes "group_zip arrays ec = Inr r" and "ec \<noteq> []"
    and "cluster_loop arrays ec ([], [], []) = Inr (nonjagged, offsets, jaggeds)"
  shows "r = Native (Zip (foldl (\<lambda>fs (c, sub). setitem_field c sub fs)
                            (dict (map (\<lambda>n. (n, the (arrays n))) nonjagged))
                            (named_clusters arrays 0 jaggeds)) (Some 1)) \<and>
         (\<forall>i<length jaggeds.
            name_cluster arrays i (jaggeds ! i) = Inr (named_clusters arrays 0 jaggeds ! i))"
proof -
  from assms(1,3) obtain out0 out where
    o0: "(if length nonjagged \<noteq> 0
              then bind (dict_from id arrays nonjagged) (\<lambda>d. Inr (Some (Zip d (Some 1))))
              else Inr None) = Inr out0"
    and at: "attach arrays 0 jaggeds out0 = Inr out"
    and r: "r = (case out of None \<Rightarrow> PyNone | Some v \<Rightarrow> Native v)"
    unfolding group_zip_def by (auto simp: bind_eq_Inr)
  from cluster_loop_eq [OF assms(3)]
  have nj: "nonjagged = nonjagged_names ec"
    and os: "offsets = first_seen (map (offsets_of arrays) (jagged_names ec))"
    and js: "jaggeds = map (\<lambda>a. filter (\<lambda>n. offsets_of arrays n = a) (jagged_names ec)) offsets"
    by (simp_all add: spec_clusters_def Let_def)
  let ?pairs = "map (\<lambda>n. (n, the (arrays n))) nonjagged"
  let ?named = "named_clusters arrays 0 jaggeds"
  let ?fs = "foldl (\<lambda>fs (c, sub). setitem_field c sub fs) (dict ?pairs) ?named"
  have "out = Some (Zip ?fs (Some 1)) \<and>
     (\<forall>i<length jaggeds. name_cluster arrays i (jaggeds ! i) = Inr (?named ! i))"
  proof (cases "nonjagged = []")
    case True
    with o0 have "out0 = None" by simp
    moreover from True nj assms(2) have "jaggeds \<noteq> []"
      using names_Nil_iff [of ec] by (auto simp: js os first_seen_eq_Nil)
    ultimately show ?thesis using attach_None [of arrays 0 jaggeds out] at True
      by (simp add: dict_def)
  next
    case False
    with o0 obtain d where d: "dict_from id arrays nonjagged = Inr d"
      and out0: "out0 = Some (Zip d (Some 1))"
      by (auto simp: bind_eq_Inr)
    from d have "dict_from (\<lambda>n. n) arrays nonjagged = Inr d" by (simp add: id_def)
    from dict_from_id_eq [OF this] have dd: "d = dict ?pairs" .
    from attach_Some [of arrays 0 jaggeds d "Some 1" out] at out0 show ?thesis
      by (simp add: dd)
  qed
  with r show ?thesis by simp
qed

text \<open>
  Claim C4, as the code has it.  For every expression context with at least one field on
  which \<open>group\<close> with \<open>how = "zip"\<close> returns, and in which the common names of the clusters
  are pairwise distinct and none is the name of a non-jagged field, the result is one
  record of depth 1 whose top-level fields are exactly the non-jagged fields, in the order
  of the expression context, followed by one sub-record per jagged cluster, in the order
  of the clusters, each under its cluster's common name.
\<close>

theorem group_ak_zip_record:
  assumes "group_ak (Inr m) arrays ec (HowStr ''zip'') = Inr r" and "ec \<noteq> []"
    and "cluster_loop arrays ec ([], [], []) = Inr (nonjagged, offsets, jaggeds)"
    and "distinct (map fst (named_clusters arrays 0 jaggeds))"
    and "set nonjagged \<inter> set (map fst (named_clusters arrays 0 jaggeds)) = {}"
  shows "r = Native (Zip (dict (map (\<lambda>n. (n, the (arrays n))) nonjagged) @
                          named_clusters arrays 0 jaggeds) (Some 1)) \<and>
         field_names (Zip (dict (map (\<lambda>n. (n, the (arrays n))) nonjagged) @
                          named_clusters arrays 0 jaggeds) (Some 1)) =
           map fst (dict (map (\<lambda>n. (n, the (arrays n))) nonjagged)) @
           map fst (named_clusters arrays 0 jaggeds) \<and>
         set (map fst (dict (map (\<lambda>n. (n, the (arrays n))) nonjagged))) = set nonjagged \<and>
         length (named_clusters arrays 0 jaggeds) = length jaggeds \<and>
         (\<forall>i<length jaggeds.
            name_cluster arrays i (jaggeds ! i) = Inr (named_clusters arrays 0 jaggeds ! i))"
proof -
  let ?pairs = "map (\<lambda>n. (n, the (arrays n))) nonjagged"
  let ?named = "named_clusters arrays 0 jaggeds"
  from assms(1) have g: "group_zip arrays ec = Inr r" by (simp add: group_ak_def)
  have k: "fst ` set (dict ?pairs) = set nonjagged"
    by (simp add: keys_dict image_image)
  with assms(5) have "fst ` set (dict ?pairs) \<inter> fst ` set ?named = {}" by simp
  from attach_all_distinct [OF assms(4) this]
  have "foldl (\<lambda>fs (c, sub). setitem_field c sub fs) (dict ?pairs) ?named = dict ?pairs @ ?named" .
  with group_zip_fields [OF g assms(2,3)] k show ?thesis by simp
qed

text \<open>
  The scenario of the specification: the top-level fields are \<open>event_id\<close> and \<open>muon\<close>, and
  \<open>muon\<close> is a sub-record with the sub-fields \<open>pt\<close> and \<open>eta\<close>.
\<close>

lemma muon_group:
  "group_ak (Inr ''awkward1'') muon_arrays muon_context (HowStr ''zip'') =
     Inr (Native (Zip [(''event_id'', Array (NumpyArray [10, 11] None)),
                       (''muon'', Zip [(''pt'', jag [0, 2, 3] [1.0, 2.0, 3.0]),
                                       (''eta'', jag [0, 2, 3] [0.1, 0.2, 0.3])] None)] (Some 1)))"
  by (simp add: group_ak_def group_zip_def muon_arrays_def muon_context_def jag_def
        cluster_step_def getitem_def dict_from_def dict_def name_cluster_def strip_def Let_def
        setitem_field_def)

theorem group_ak_zip_record_witness:
  "muon_context \<noteq> [] \<and>
   group_ak (Inr ''awkward1'') muon_arrays muon_context (HowStr ''zip'') =
     Inr (Native (Zip [(''event_id'', Array (NumpyArray [10, 11] None)),
                       (''muon'', Zip [(''pt'', jag [0, 2, 3] [1.0, 2.0, 3.0]),
                                       (''eta'', jag [0, 2, 3] [0.1, 0.2, 0.3])] None)] (Some 1))) \<and>
   cluster_loop muon_arrays muon_context ([], [], []) =
     Inr ([''event_id''], [[0, 2, 3]], [[''muon_pt'', ''muon_eta'']]) \<and>
   named_clusters muon_arrays 0 [[''muon_pt'', ''muon_eta'']] =
     [(''muon'', Zip [(''pt'', jag [0, 2, 3] [1.0, 2.0, 3.0]),
                      (''eta'', jag [0, 2, 3] [0.1, 0.2, 0.3])] None)] \<and>
   field_names (Zip [(''event_id'', Array (NumpyArray [10, 11] None)),
                     (''muon'', Zip [(''pt'', jag [0, 2, 3] [1.0, 2.0, 3.0]),
                                     (''eta'', jag [0, 2, 3] [0.1, 0.2, 0.3])] None)] (Some 1))
     = [''event_id'', ''muon''] \<and>
   field_names (Zip [(''pt'', jag [0, 2, 3] [1.0, 2.0, 3.0]),
                     (''eta'', jag [0, 2, 3] [0.1, 0.2, 0.3])] None) = [''pt'', ''eta'']"
proof -
  have ne: "muon_context \<noteq> []" by (simp add: muon_context_def)
  have cl: "cluster_loop muon_arrays muon_context ([], [], []) =
     Inr ([''event_id''], [[0, 2, 3]], [[''muon_pt'', ''muon_eta'']])"
    by (simp add: muon_arrays_def muon_context_def jag_def cluster_step_def getitem_def)
  have nc: "named_clusters muon_arrays 0 [[''muon_pt'', ''muon_eta'']] =
     [(''muon'', Zip [(''pt'', jag [0, 2, 3] [1.0, 2.0, 3.0]),
                      (''eta'', jag [0, 2, 3] [0.1, 0.2, 0.3])] None)]"
    by (simp add: named_clusters_def name_cluster_def muon_arrays_def dict_from_def dict_def
          getitem_def strip_def Let_def)
  have d1: "distinct (map fst (named_clusters muon_arrays 0 [[''muon_pt'', ''muon_eta'']]))"
    by (simp add: nc)
  have d2: "set [''event_id''] \<inter>
      set (map fst (named_clusters muon_arrays 0 [[''muon_pt'', ''muon_eta'']])) = {}"
    by (simp add: nc)
  from group_ak_zip_record [OF muon_group ne cl d1 d2]
  have "field_names (Zip (dict (map (\<lambda>n. (n, the (muon_arrays n))) [''event_id'']) @
           named_clusters muon_arrays 0 [[''muon_pt'', ''muon_eta'']]) (Some 1)) =
         map fst (dict (map (\<lambda>n. (n, the (muon_arrays n))) [''event_id''])) @
         map fst (named_clusters muon_arrays 0 [[''muon_pt'', ''muon_eta'']])"
    by blast
  then have "field_names (Zip [(''event_id'', Array (NumpyArray [10, 11] None)),
                     (''muon'', Zip [(''pt'', jag [0, 2, 3] [1.0, 2.0, 3.0]),
                                     (''eta'', jag [0, 2, 3] [0.1, 0.2, 0.3])] None)] (Some 1))
     = [''event_id'', ''muon'']"
    by (simp add: nc dict_def muon_arrays_def)
  with ne muon_group cl nc show ?thesis by simp
qed

text \<open>
  The claim as stated, for every input, fails twice.  On the empty expression context the
  result is \<open>None\<close>, not a record.  On two clusters with the same common name \<open>mu\<close> the
  result has the one field \<open>mu\<close>, which holds the sub-record of the second cluster only:
  the first cluster has no sub-record in the result.
\<close>

theorem group_ak_zip_counterexample:
  "group_ak (Inr ''awkward1'') (Map.empty :: string \<rightharpoonup> real ak_array) [] (HowStr ''zip'') =
     Inr PyNone \<and>
   cluster_loop mu_arrays mu_context ([], [], []) =
     Inr ([], [[0, 2, 3], [0, 1, 4]], [[''mu_pt'', ''mu_eta''], [''mu.x'', ''mu.y'']]) \<and>
   map fst (named_clusters mu_arrays 0 [[''mu_pt'', ''mu_eta''], [''mu.x'', ''mu.y'']]) =
     [''mu'', ''mu''] \<and>
   group_ak (Inr ''awkward1'') mu_arrays mu_context (HowStr ''zip'') =
     Inr (Native (Zip [(''mu'', Zip [(''x'', jag [0, 1, 4] [5.0, 6.0, 7.0, 8.0]),
                                     (''y'', jag [0, 1, 4] [9.0, 10.0, 11.0, 12.0])] None)]
            (Some 1)))"
  by (simp add: group_ak_def group_zip_def mu_arrays_def mu_context_def jag_def
        cluster_step_def getitem_def dict_from_def dict_def name_cluster_def named_clusters_def
        strip_def Let_def setitem_field_def)

subsection \<open>The projections \<open>tuple\<close>, \<open>list\<close> and \<open>dict\<close>\<close>

lemma lookup_all_ec:
  "set (map fst ec) \<subseteq> dom arrays \<Longrightarrow>
   lookup_all arrays (map fst ec) = Inr (map (\<lambda>nc. the (arrays (fst nc))) ec)"
  by (simp add: lookup_all_Inr comp_def)

lemma dict_from_ec:
  assumes "set (map fst ec) \<subseteq> dom arrays"
  shows "dict_from id arrays (map fst ec) = Inr (dict (map (\<lambda>nc. (fst nc, the (arrays (fst nc)))) ec))"
  using dict_from_Inr [OF assms, of id] by (simp add: comp_def)

lemma dict_ec_keys:
  "set (map fst (dict (map (\<lambda>nc. (fst nc, f (fst nc))) ec))) = set (map fst ec)"
  by (simp add: keys_dict image_image)

lemma dict_ec_values:
  assumes "n \<in> set (map fst ec)"
  shows "map_of (dict (map (\<lambda>nc. (fst nc, f (fst nc))) ec)) n = Some (f n)"
proof -
  have "map (\<lambda>nc. (fst nc, f (fst nc))) ec = map (\<lambda>k. (k, f k)) (map fst ec)" by (simp add: comp_def)
  then have "map_of (dict (map (\<lambda>nc. (fst nc, f (fst nc))) ec)) = map_of (map (\<lambda>k. (k, f k)) (rev (map fst ec)))"
    by (simp add: map_of_dict rev_map comp_def)
  with assms show ?thesis by (simp add: map_of_map_restrict del: map_map)
qed

text \<open>
  Claim C8.  When every name of the expression context has a finalized array (and, for
  Awkward and Pandas, the library is imported), \<open>group\<close> with \<open>how = tuple\<close> and with
  \<open>how = list\<close> returns the arrays in exactly the order of the expression context, and with
  \<open>how = dict\<close> a dictionary whose keys are exactly the names of the expression context,
  each with its array; on \<open>Library\<close> (\<open>NumPy\<close>, \<open>CuPy\<close>), \<open>Awkward\<close> and \<open>Pandas\<close> alike.
\<close>

theorem group_projections:
  assumes "set (map fst ec) \<subseteq> dom arrays" and "set (map fst ec) \<subseteq> dom ak_arrays"
  shows "group nm arrays ec HowTuple = Inr (Tuple (map (\<lambda>nc. the (arrays (fst nc))) ec)) \<and>
         group nm arrays ec HowList = Inr (List (map (\<lambda>nc. the (arrays (fst nc))) ec)) \<and>
         group_ak (Inr ak) ak_arrays ec HowTuple = Inr (Tuple (map (\<lambda>nc. the (ak_arrays (fst nc))) ec)) \<and>
         group_ak (Inr ak) ak_arrays ec HowList = Inr (List (map (\<lambda>nc. the (ak_arrays (fst nc))) ec)) \<and>
         group_pd (Inr pd) tables arrays ec HowTuple = Inr (Tuple (map (\<lambda>nc. the (arrays (fst nc))) ec)) \<and>
         group_pd (Inr pd) tables arrays ec HowList = Inr (List (map (\<lambda>nc. the (arrays (fst nc))) ec)) \<and>
         (\<exists>d. group nm arrays ec HowDict = Inr (Dict d) \<and>
              group_pd (Inr pd) tables arrays ec HowDict = Inr (Dict d) \<and>
              set (map fst d) = set (map fst ec) \<and>
              (\<forall>n\<in>set (map fst ec). map_of d n = arrays n)) \<and>
         (\<exists>d. group_ak (Inr ak) ak_arrays ec HowDict = Inr (Dict d) \<and>
              set (map fst d) = set (map fst ec) \<and>
              (\<forall>n\<in>set (map fst ec). map_of d n = ak_arrays n))"
proof -
  have v: "\<And>n. n \<in> set (map fst ec) \<Longrightarrow> Some (the (arrays n)) = arrays n"
    using assms(1) by auto
  have w: "\<And>n. n \<in> set (map fst ec) \<Longrightarrow> Some (the (ak_arrays n)) = ak_arrays n"
    using assms(2) by auto
  have d1: "\<exists>d. group nm arrays ec HowDict = Inr (Dict d) \<and>
              group_pd (Inr pd) tables arrays ec HowDict = Inr (Dict d) \<and>
              set (map fst d) = set (map fst ec) \<and>
              (\<forall>n\<in>set (map fst ec). map_of d n = arrays n)"
    using v dict_ec_keys [of "\<lambda>n. the (arrays n)" ec] dict_ec_values [of _ ec "\<lambda>n. the (arrays n)"]
    by (intro exI [of _ "dict (map (\<lambda>nc. (fst nc, the (arrays (fst nc)))) ec)"])
       (simp add: group_def group_pd_def dict_from_ec [OF assms(1)] del: set_map)
  have d2: "\<exists>d. group_ak (Inr ak) ak_arrays ec HowDict = Inr (Dict d) \<and>
              set (map fst d) = set (map fst ec) \<and>
              (\<forall>n\<in>set (map fst ec). map_of d n = ak_arrays n)"
    using w dict_ec_keys [of "\<lambda>n. the (ak_arrays n)" ec] dict_ec_values [of _ ec "\<lambda>n. the (ak_arrays n)"]
    by (intro exI [of _ "dict (map (\<lambda>nc. (fst nc, the (ak_arrays (fst nc)))) ec)"])
       (simp add: group_ak_def dict_from_ec [OF assms(2)] del: set_map)
  show ?thesis
    using d1 d2
    by (simp add: group_def group_ak_def group_pd_def lookup_all_ec [OF assms(1)]
          lookup_all_ec [OF assms(2)] del: set_map)
qed

theorem group_projections_witness:
  "set (map fst muon_context) \<subseteq> dom muon_arrays \<and>
   (group ''np'' muon_arrays muon_context HowTuple :: error + (real ak_array, unit) grouped) =
     Inr (Tuple [jag [0, 2, 3] [1.0, 2.0, 3.0], jag [0, 2, 3] [0.1, 0.2, 0.3],
                 Array (NumpyArray [10, 11] None)]) \<and>
   group_ak (Inr ''awkward1'') muon_arrays muon_context HowList =
     Inr (List [jag [0, 2, 3] [1.0, 2.0, 3.0], jag [0, 2, 3] [0.1, 0.2, 0.3],
                Array (NumpyArray [10, 11] None)]) \<and>
   (group_pd (Inr ''pandas'') (\<lambda>a n h. Inl NotImplementedError) muon_arrays muon_context HowDict
      :: error + (real ak_array, unit) grouped) =
     Inr (Dict [(''muon_pt'', jag [0, 2, 3] [1.0, 2.0, 3.0]),
                (''muon_eta'', jag [0, 2, 3] [0.1, 0.2, 0.3]),
                (''event_id'', Array (NumpyArray [10, 11] None))])"
proof -
  have h: "set (map fst muon_context) \<subseteq> dom muon_arrays"
    by (simp add: muon_context_def muon_arrays_def)
  have d: "(group_pd (Inr ''pandas'') (\<lambda>a n h. Inl NotImplementedError) muon_arrays muon_context HowDict
      :: error + (real ak_array, unit) grouped) =
     Inr (Dict [(''muon_pt'', jag [0, 2, 3] [1.0, 2.0, 3.0]),
                (''muon_eta'', jag [0, 2, 3] [0.1, 0.2, 0.3]),
                (''event_id'', Array (NumpyArray [10, 11] None))])"
    by (simp add: group_pd_def muon_context_def muon_arrays_def dict_from_def dict_def getitem_def)
  have "(group ''np'' muon_arrays muon_context HowTuple :: error + (real ak_array, unit) grouped) =
          Inr (Tuple (map (\<lambda>nc. the (muon_arrays (fst nc))) muon_context))"
    and "group_ak (Inr ''awkward1'') muon_arrays muon_context HowList =
          Inr (List (map (\<lambda>nc. the (muon_arrays (fst nc))) muon_context))"
    using group_projections [OF h h, of "''np''" "''awkward1''"] by blast+
  with h d show ?thesis by (simp add: muon_context_def muon_arrays_def)
qed

subsection \<open>Reading \<open>imported\<close> again\<close>

lemma import_module_cases:
  "import_module available m st = (True, st) \<and> m \<in> set (sys_modules st) \<or>
   import_module available m st =
     (True, st\<lparr>sys_modules := m # sys_modules st, searches := searches st @ [m]\<rparr>) \<and>
     m \<notin> set (sys_modules st) \<or>
   import_module available m st = (False, st\<lparr>searches := searches st @ [m]\<rparr>) \<and>
     m \<notin> set (sys_modules st) \<and> \<not> available m"
  by (simp add: import_module_def)

text \<open>
  Claim C3, as the code has it.  A second read of the property \<open>imported\<close> has the outcome
  of the first: the same module, or the same error with the same message.  After a
  success the second read leaves the interpreter as it is: the module is taken from
  \<open>sys.modules\<close> and nothing is searched for again.  After a failure nothing was cached:
  both reads searched for the module, the second one once more.
\<close>

theorem imported_again:
  "fst (imported available lib (snd (imported available lib st))) = fst (imported available lib st) \<and>
   ((\<exists>handle. fst (imported available lib st) = Inr handle) \<longrightarrow>
      snd (imported available lib (snd (imported available lib st))) = snd (imported available lib st)) \<and>
   (lib \<noteq> Library \<and> (\<exists>e. fst (imported available lib st) = Inl e) \<longrightarrow>
      searches (snd (imported available lib (snd (imported available lib st)))) =
        searches (snd (imported available lib st)) @ [module_of lib] \<and>
      searches (snd (imported available lib st)) = searches st @ [module_of lib])"
proof (cases lib)
  case Library
  then show ?thesis by simp
next
  case NumPy
  then show ?thesis using import_module_cases [of available "''numpy''" st]
    by (auto simp: import_module_def)
next
  case Awkward
  then show ?thesis using import_module_cases [of available "''awkward1''" st]
    by (auto simp: import_module_def)
next
  case Pandas
  then show ?thesis using import_module_cases [of available "''pandas''" st]
    by (auto simp: import_module_def)
next
  case CuPy
  then show ?thesis using import_module_cases [of available "''cupy''" st]
    by (auto simp: import_module_def)
qed

theorem imported_again_witness:
  "imported (\<lambda>m. False) Awkward loaded =
     (Inl (ImportError (pip_message ''awkward1'')),
      \<lparr>sys_modules = [''numpy''], searches = [''awkward1'']\<rparr>) \<and>
   imported (\<lambda>m. False) Awkward \<lparr>sys_modules = [''numpy''], searches = [''awkward1'']\<rparr> =
     (Inl (ImportError (pip_message ''awkward1'')),
      \<lparr>sys_modules = [''numpy''], searches = [''awkward1'', ''awkward1'']\<rparr>) \<and>
   imported (\<lambda>m. True) Pandas loaded =
     (Inr ''pandas'', \<lparr>sys_modules = [''pandas'', ''numpy''], searches = [''pandas'']\<rparr>) \<and>
   imported (\<lambda>m. True) Pandas \<lparr>sys_modules = [''pandas'', ''numpy''], searches = [''pandas'']\<rparr> =
     (Inr ''pandas'', \<lparr>sys_modules = [''pandas'', ''numpy''], searches = [''pandas'']\<rparr>)"
  using imported_again [of "\<lambda>m. False" Awkward loaded] imported_again [of "\<lambda>m. True" Pandas loaded]
  by (simp add: loaded_def import_module_def)

text \<open>
  The claim as stated fails: with \<open>awkward1\<close> not installed, the second read of
  \<open>Awkward.imported\<close> searches for the module again.
\<close>

theorem imported_failure_counterexample:
  "fst (imported (\<lambda>m. False) Awkward loaded) = Inl (ImportError (pip_message ''awkward1'')) \<and>
   searches (snd (imported (\<lambda>m. False) Awkward loaded)) = [''awkward1''] \<and>
   searches (snd (imported (\<lambda>m. False) Awkward (snd (imported (\<lambda>m. False) Awkward loaded)))) =
     [''awkward1'', ''awkward1'']"
  by (simp add: loaded_def import_module_def)

subsection \<open>Index widths in \<open>Awkward.finalize\<close>\<close>

text \<open>
  Claim C2 against the code: a \<open>JaggedArray\<close> whose offsets are 64-bit signed becomes a
  \<open>ListOffsetArray32\<close> over an \<open>Index32\<close>, where a \<open>StringArray\<close> with the same offsets becomes
  a \<open>ListOffsetArray64\<close>.
\<close>

theorem finalize_ak_jagged_int64:
  "finalize_ak (Inr ''awkward1'') (JaggedArray Int64 [0, 2, 3] [1.0, 2.0, 3.0 :: real]) =
     Inr (Array (ListOffsetArray W32 [0, 2, 3] (NumpyArray [1.0, 2.0, 3.0] None) None)) \<and>
   finalize_ak (Inr ''awkward1'') (StringArray Int64 [0, 2, 3] [1.0, 2.0, 3.0 :: real]) =
     Inr (Array (ListOffsetArray W64 [0, 2, 3] (NumpyArray [1.0, 2.0, 3.0] (Some ''char''))
            (Some ''string'')))"
  by (simp add: finalize_ak_def Index32_def Index64_def)

text \<open>
  The branch of the \<open>StringArray\<close> keeps the width and refuses any other dtype; the branch
  of the \<open>JaggedArray\<close> never looks at the dtype, and casts 64-bit offsets to 32 bits.
\<close>

lemma finalize_ak_string:
  "finalize_ak (Inr m) (StringArray dt offsets content) =
     (case dt of
        Int32 \<Rightarrow> Inr (Array (ListOffsetArray W32 (Index32 offsets)
                   (NumpyArray content (Some ''char'')) (Some ''string'')))
      | UInt32 \<Rightarrow> Inr (Array (ListOffsetArray WU32 (IndexU32 offsets)
                   (NumpyArray content (Some ''char'')) (Some ''string'')))
      | Int64 \<Rightarrow> Inr (Array (ListOffsetArray W64 (Index64 offsets)
                   (NumpyArray content (Some ''char'')) (Some ''string'')))
      | OtherDtype s \<Rightarrow> Inl (AssertionError (repr_dtype (OtherDtype s))))"
  by (cases dt) (simp_all add: finalize_ak_def)

lemma finalize_ak_jagged:
  "finalize_ak (Inr m) (JaggedArray dt offsets content) =
     Inr (Array (ListOffsetArray W32 (Index32 offsets) (NumpyArray content None) None))"
  by (simp add: finalize_ak_def)

lemma finalize_ak_jagged_wraps:
  "finalize_ak (Inr ''awkward1'') (JaggedArray Int64 [0, 4294967299] [1.0 :: real]) =
     Inr (Array (ListOffsetArray W32 [0, 3] (NumpyArray [1.0] None) None))"
  by (simp add: finalize_ak_def Index32_def)

subsection \<open>Index tuples\<close>

lemma set_product:
  "set (product dims) = {tup. length tup = length dims \<and> (\<forall>i<length dims. tup ! i < dims ! i)}"
  by (auto simp: product_def product_lists_set list_all2_conv_all_nth)

lemma length_product: "length (product dims) = prod_list dims"
  unfolding product_def by (induction dims) (simp_all add: length_concat comp_def sum_list_triv)

lemma distinct_product_dims: "distinct (product dims)"
  unfolding product_def by (rule distinct_product_lists) auto

lemma length_in_product: "tup \<in> set (product dims) \<Longrightarrow> length tup = length dims"
  by (simp add: set_product)

subsection \<open>Decimal digits\<close>

lemma digit_inj: "a < 10 \<Longrightarrow> b < 10 \<Longrightarrow> digit a = digit b \<Longrightarrow> a = b"
proof -
  assume a: "a < 10" and b: "b < 10" and e: "digit a = digit b"
  have d: "distinct ''0123456789''" by simp
  from a b have "a < length ''0123456789''" "b < length ''0123456789''" by simp_all
  with d e show "a = b" unfolding digit_def by (simp only: nth_eq_iff_index_eq)
qed

lemma digit_mem: "a < 10 \<Longrightarrow> digit a \<in> set ''0123456789''"
  unfolding digit_def by (rule nth_mem) simp

lemma str_digits: "set (str n) \<subseteq> set ''0123456789''"
proof (induction n rule: str.induct)
  case (1 n)
  show ?case
  proof (cases "n < 10")
    case True
    then show ?thesis using digit_mem [of n] by (subst str.simps) simp
  next
    case False
    have "n mod 10 < 10" by simp
    with False 1 digit_mem [of "n mod 10"] show ?thesis by (subst str.simps) simp
  qed
qed

lemma str_not_Nil: "str n \<noteq> []"
  by (subst str.simps) simp

lemma str_inj: "str a = str b \<Longrightarrow> a = b"
proof (induction a arbitrary: b rule: str.induct)
  case (1 a)
  show ?case
  proof (cases "a < 10")
    case True
    show ?thesis
    proof (cases "b < 10")
      case b: True
      from "1.prems" True b have "digit a = digit b"
        by (simp add: str.simps [of a] str.simps [of b])
      with True b show ?thesis by (rule digit_inj)
    next
      case b: False
      from "1.prems" True b str_not_Nil [of "b div 10"] show ?thesis
        by (simp add: str.simps [of a] str.simps [of b])
    qed
  next
    case False
    show ?thesis
    proof (cases "b < 10")
      case b: True
      from "1.prems" False b str_not_Nil [of "a div 10"] show ?thesis
        by (simp add: str.simps [of a] str.simps [of b])
    next
      case b: False
      from "1.prems" False b have e: "str (a div 10) = str (b div 10)"
        and d: "digit (a mod 10) = digit (b mod 10)"
        by (simp_all add: str.simps [of a] str.simps [of b])
      from "1.IH" [OF False e] have "a div 10 = b div 10" .
      moreover from d have "a mod 10 = b mod 10" by (intro digit_inj) simp_all
      ultimately show ?thesis by (metis div_mult_mod_eq)
    qed
  qed
qed

subsection \<open>Bracketed suffixes\<close>

lemma bracketed_snoc: "bracketed (tup @ [x]) = bracketed tup @ ''['' @ str x @ '']''"
  by (simp add: bracketed_def)

lemma bracket_not_in_str: "CHR ''['' \<notin> set (str n)"
  using str_digits [of n] by auto

lemma split_first_unique:
  "c \<notin> set p \<Longrightarrow> c \<notin> set q \<Longrightarrow> p @ c # r = q @ c # r' \<Longrightarrow> p = q \<and> r = r'"
proof (induction p arbitrary: q)
  case Nil
  show ?case
  proof (cases q)
    case Nil
    with Nil.prems show ?thesis by simp
  next
    case (Cons y q')
    with Nil.prems show ?thesis by simp
  qed
next
  case (Cons x p)
  show ?case
  proof (cases q)
    case Nil
    with Cons.prems show ?thesis by simp
  next
    case c: (Cons y q')
    with Cons.prems have "c \<notin> set p" "c \<notin> set q'" "p @ c # r = q' @ c # r'" "x = y"
      by simp_all
    with Cons.IH [of q'] c show ?thesis by simp
  qed
qed

lemma last_index_unique:
  assumes "a @ ''['' @ s1 @ '']'' = b @ ''['' @ s2 @ '']''"
    and "CHR ''['' \<notin> set s1" and "CHR ''['' \<notin> set s2"
  shows "a = b \<and> s1 = s2"
proof -
  from assms(1) have "a @ CHR ''['' # s1 = b @ CHR ''['' # s2" by simp
  then have "rev (a @ CHR ''['' # s1) = rev (b @ CHR ''['' # s2)" by (rule arg_cong)
  then have "rev s1 @ CHR ''['' # rev a = rev s2 @ CHR ''['' # rev b" by simp
  moreover from assms(2,3) have "CHR ''['' \<notin> set (rev s1)" "CHR ''['' \<notin> set (rev s2)"
    by simp_all
  ultimately have "rev s1 = rev s2 \<and> rev a = rev b"
    using split_first_unique [of "CHR ''[''" "rev s1" "rev s2" "rev a" "rev b"] by blast
  then show ?thesis by simp
qed

lemma name_bracketed_inj_aux:
  "length t1 = length t2 \<longrightarrow>
   (\<forall>n1 n2. n1 @ bracketed t1 = n2 @ bracketed t2 \<longrightarrow> n1 = n2 \<and> t1 = t2)"
proof (induct t1 t2 rule: rev_induct2)
  show "length [] = length [] \<longrightarrow>
    (\<forall>n1 n2. n1 @ bracketed [] = n2 @ bracketed [] \<longrightarrow> n1 = n2 \<and> ([] :: nat list) = [])"
    by (simp add: bracketed_def)
next
  fix x xs
  show "length (xs @ [x]) = length [] \<longrightarrow>
    (\<forall>n1 n2. n1 @ bracketed (xs @ [x]) = n2 @ bracketed [] \<longrightarrow> n1 = n2 \<and> xs @ [x] = [])"
    by simp
next
  fix y ys
  show "length [] = length (ys @ [y]) \<longrightarrow>
    (\<forall>n1 n2. n1 @ bracketed [] = n2 @ bracketed (ys @ [y]) \<longrightarrow> n1 = n2 \<and> [] = ys @ [y])"
    by simp
next
  fix x xs y ys
  assume IH: "length xs = length ys \<longrightarrow>
    (\<forall>n1 n2. n1 @ bracketed xs = n2 @ bracketed ys \<longrightarrow> n1 = n2 \<and> xs = ys)"
  show "length (xs @ [x]) = length (ys @ [y]) \<longrightarrow>
    (\<forall>n1 n2. n1 @ bracketed (xs @ [x]) = n2 @ bracketed (ys @ [y]) \<longrightarrow>
       n1 = n2 \<and> xs @ [x] = ys @ [y])"
  proof (intro impI allI)
    fix n1 n2
    assume l: "length (xs @ [x]) = length (ys @ [y])"
      and e: "n1 @ bracketed (xs @ [x]) = n2 @ bracketed (ys @ [y])"
    from e have "(n1 @ bracketed xs) @ ''['' @ str x @ '']'' = (n2 @ bracketed ys) @ ''['' @ str y @ '']''"
      by (simp add: bracketed_snoc)
    from last_index_unique [OF this bracket_not_in_str bracket_not_in_str]
    have "n1 @ bracketed xs = n2 @ bracketed ys" and "str x = str y" by blast+
    moreover from l have "length xs = length ys" by simp
    ultimately have "n1 = n2 \<and> xs = ys" and "x = y" using IH str_inj by blast+
    then show "n1 = n2 \<and> xs @ [x] = ys @ [y]" by simp
  qed
qed

lemma name_bracketed_inj:
  "length t1 = length t2 \<Longrightarrow> n1 @ bracketed t1 = n2 @ bracketed t2 \<Longrightarrow> n1 = n2 \<and> t1 = t2"
  using name_bracketed_inj_aux [of t1 t2] by simp

subsection \<open>The columns of a structured array in \<open>Pandas.finalize\<close>\<close>

lemma structured_items_product:
  "structured_items names dims =
     map (\<lambda>(n, tup). ('':'' @ n @ bracketed tup, Item (Some n) tup)) (List.product names (product dims))"
  unfolding structured_items_def List.product_concat_map
  by (simp add: map_concat comp_def)

lemma structured_items_names:
  "map fst (structured_items names dims) =
     concat (map (\<lambda>n. map (\<lambda>tup. '':'' @ n @ bracketed tup) (product dims)) names)"
  by (simp add: structured_items_def map_concat comp_def)

lemma length_structured_items:
  "length (structured_items names dims) = length names * prod_list dims"
  by (simp add: structured_items_product length_product)

lemma distinct_structured_items:
  assumes "distinct names"
  shows "distinct (map fst (structured_items names dims))"
proof -
  let ?g = "\<lambda>(n, tup). '':'' @ n @ bracketed tup"
  have m: "map fst (structured_items names dims) = map ?g (List.product names (product dims))"
    by (simp add: structured_items_product comp_def case_prod_unfold)
  have "inj_on ?g (set (List.product names (product dims)))"
  proof (rule inj_onI)
    fix p q assume p: "p \<in> set (List.product names (product dims))"
      and q: "q \<in> set (List.product names (product dims))" and e: "?g p = ?g q"
    obtain n1 t1 where pp: "p = (n1, t1)" by (cases p)
    obtain n2 t2 where qq: "q = (n2, t2)" by (cases q)
    from p q pp qq have "length t1 = length t2" by (simp add: set_product)
    moreover from e pp qq have "n1 @ bracketed t1 = n2 @ bracketed t2" by simp
    ultimately show "p = q" using name_bracketed_inj pp qq by blast
  qed
  moreover have "distinct (List.product names (product dims))"
    using assms distinct_product_dims by (rule distinct_product)
  ultimately show ?thesis unfolding m by (simp add: distinct_map)
qed


text \<open>
  Claim C9, as the code has it.  A structured array of exactly one dimension becomes a
  table with one column per subfield, named by a colon and the subfield name.  A
  structured array of two or more dimensions becomes a table with one column per subfield
  and per index tuple of the trailing dimensions (each index below its dimension), named
  by a colon, the subfield name and one bracketed index per trailing dimension; there are
  as many columns as subfields times the product of the trailing dimensions, and distinct
  subfield names give distinct column names.
\<close>

theorem finalize_pd_structured_columns:
  fixes columns :: "(string \<times> 'a list) list"
  shows "finalize_pd (Inr m) (Structured [len] columns) =
     Inr (DataFrame (dict (map (\<lambda>x. ('':'' @ x, Item (Some x) [])) (map fst columns)))
            (map (\<lambda>x. '':'' @ x) (map fst columns))) \<and>
   finalize_pd (Inr m) (Structured (len # d # ds) columns) =
     Inr (DataFrame (dict (structured_items (map fst columns) (d # ds)))
            (concat (map (\<lambda>n. map (\<lambda>tup. '':'' @ n @ bracketed tup) (product (d # ds)))
                       (map fst columns)))) \<and>
   map fst (structured_items (map fst columns) (d # ds) :: (string \<times> 'a pd_values) list) =
     concat (map (\<lambda>n. map (\<lambda>tup. '':'' @ n @ bracketed tup) (product (d # ds))) (map fst columns)) \<and>
   set (product (d # ds)) =
     {tup. length tup = length (d # ds) \<and> (\<forall>i<length (d # ds). tup ! i < (d # ds) ! i)} \<and>
   length (concat (map (\<lambda>n. map (\<lambda>tup. '':'' @ n @ bracketed tup) (product (d # ds)))
                    (map fst columns))) = length columns * prod_list (d # ds) \<and>
   (distinct (map fst columns) \<longrightarrow>
      distinct (concat (map (\<lambda>n. map (\<lambda>tup. '':'' @ n @ bracketed tup) (product (d # ds)))
                         (map fst columns))))"
proof -
  let ?names = "map fst columns"
  let ?cols = "concat (map (\<lambda>n. map (\<lambda>tup. '':'' @ n @ bracketed tup) (product (d # ds))) ?names)"
  have n: "map fst (structured_items ?names (d # ds) :: (string \<times> 'a pd_values) list) = ?cols"
    by (rule structured_items_names)
  have a: "finalize_pd (Inr m) (Structured [len] columns) =
     Inr (DataFrame (dict (map (\<lambda>x. ('':'' @ x, Item (Some x) [])) ?names))
            (map (\<lambda>x. '':'' @ x) ?names))"
    by (simp add: finalize_pd_def)
  have b: "finalize_pd (Inr m) (Structured (len # d # ds) columns) =
     Inr (DataFrame (dict (structured_items ?names (d # ds))) ?cols)"
    unfolding n [symmetric] by (simp add: finalize_pd_def Let_def)
  have "length ?cols = length (structured_items ?names (d # ds) :: (string \<times> 'a pd_values) list)"
    unfolding n [symmetric] by simp
  also have "\<dots> = length ?names * prod_list (d # ds)"
    by (rule length_structured_items)
  finally have c: "length ?cols = length columns * prod_list (d # ds)" by simp
  have e: "distinct ?names \<longrightarrow> distinct ?cols"
    unfolding n [symmetric] by (simp add: distinct_structured_items)
  from a b n c e set_product [of "d # ds"] show ?thesis by blast
qed

lemma product_2: "product [2] = [[0], [1]]"
  by (simp add: product_def upt_rec)

theorem finalize_pd_structured_columns_witness:
  "finalize_pd (Inr ''pandas'') (Structured [3] [(''x'', [1, 2, 3 :: int]), (''y'', [4, 5, 6])]) =
     Inr (DataFrame [('':x'', Item (Some ''x'') []), ('':y'', Item (Some ''y'') [])] ['':x'', '':y'']) \<and>
   finalize_pd (Inr ''pandas'') (Structured [3, 2] [(''x'', [1, 2, 3, 4, 5, 6 :: int]), (''y'', [4, 5, 6, 7, 8, 9])]) =
     Inr (DataFrame [('':x[0]'', Item (Some ''x'') [0]), ('':x[1]'', Item (Some ''x'') [1]),
                     ('':y[0]'', Item (Some ''y'') [0]), ('':y[1]'', Item (Some ''y'') [1])]
            ['':x[0]'', '':x[1]'', '':y[0]'', '':y[1]'']) \<and>
   distinct ['':x[0]'', '':x[1]'', '':y[0]'', '':y[1]'']"
  using finalize_pd_structured_columns [of "''pandas''" 3 "[(''x'', [1, 2, 3 :: int]), (''y'', [4, 5, 6])]"]
    finalize_pd_structured_columns [of "''pandas''" 3
      "[(''x'', [1, 2, 3, 4, 5, 6 :: int]), (''y'', [4, 5, 6, 7, 8, 9])]" 2 "[]"]
  by (simp add: product_2 bracketed_def str.simps digit_def structured_items_def dict_def)

text \<open>
  The claim as stated fails: the column of the subfield \<open>x\<close> is named \<open>:x\<close>, and \<open>:x[0]\<close> with
  a trailing dimension, not \<open>x\<close> and \<open>x[0]\<close>.
\<close>

theorem finalize_pd_column_name_counterexample:
  "finalize_pd (Inr ''pandas'') (Structured [3] [(''x'', [1, 2, 3 :: int]), (''y'', [4, 5, 6])]) =
     Inr (DataFrame [('':x'', Item (Some ''x'') []), ('':y'', Item (Some ''y'') [])] ['':x'', '':y'']) \<and>
   '':x'' \<noteq> ''x'' \<and>
   finalize_pd (Inr ''pandas'') (Structured [3, 2] [(''x'', [1, 2, 3, 4, 5, 6 :: int])]) =
     Inr (DataFrame [('':x[0]'', Item (Some ''x'') [0]), ('':x[1]'', Item (Some ''x'') [1])]
            ['':x[0]'', '':x[1]'']) \<and>
   '':x[0]'' \<noteq> ''x[0]''"
  by (simp add: finalize_pd_def product_2 bracketed_def str.simps digit_def structured_items_def
        dict_def Let_def)

subsection \<open>Backend resolution\<close>

text \<open>
  Claim C7, as the code has it: a string resolves exactly when it is one of the twenty-one
  spellings stored in \<open>_libraries\<close> (the four canonical names in lower case; \<open>numpy\<close>,
  \<open>Numpy\<close>, \<open>NumPy\<close>, \<open>NUMPY\<close>; \<open>awkward1\<close>, \<open>Awkward1\<close>, \<open>AWKWARD1\<close>, \<open>awkward\<close>, \<open>Awkward\<close>,
  \<open>AWKWARD\<close>; \<open>pandas\<close>, \<open>Pandas\<close>, \<open>PANDAS\<close>; \<open>cupy\<close>, \<open>Cupy\<close>, \<open>CuPy\<close>, \<open>CUPY\<close>); all
  spellings of one backend resolve to the same object, and every other string fails with
  the \<open>ValueError\<close> that names it.
\<close>

theorem regularize_library_Str:
  "regularize_library (Str s) =
     (if s \<in> {''np'', ''numpy'', ''Numpy'', ''NumPy'', ''NUMPY''} then Inr (Obj 0 NumPy)
      else if s \<in> {''ak'', ''awkward1'', ''Awkward1'', ''AWKWARD1'',
                    ''awkward'', ''Awkward'', ''AWKWARD''} then Inr (Obj 1 Awkward)
      else if s \<in> {''pd'', ''pandas'', ''Pandas'', ''PANDAS''} then Inr (Obj 2 Pandas)
      else if s \<in> {''cp'', ''cupy'', ''Cupy'', ''CuPy'', ''CUPY''} then Inr (Obj 3 CuPy)
      else Inl (ValueError ''unrecognized library: {0}'' s))"
  by (simp add: libraries_def getitem_def Let_def)

theorem regularize_library_Str_witness:
  "regularize_library (Str ''NumPy'') = Inr (Obj 0 NumPy) \<and>
   regularize_library (Str ''numpy'') = Inr (Obj 0 NumPy) \<and>
   regularize_library (Str ''AWKWARD1'') = Inr (Obj 1 Awkward) \<and>
   regularize_library (Str ''tensorflow'') =
     Inl (ValueError ''unrecognized library: {0}'' ''tensorflow'')"
  using regularize_library_Str [of "''NumPy''"] regularize_library_Str [of "''numpy''"]
    regularize_library_Str [of "''AWKWARD1''"] regularize_library_Str [of "''tensorflow''"]
  by simp

text \<open>
  The claim as stated fails: \<open>NP\<close> is a case-insensitive variant of the canonical name
  \<open>np\<close>, and it is not resolved.
\<close>

theorem regularize_library_case_variant_counterexample:
  "lower ''NP'' = ''np'' \<and> ''np'' \<in> set spec_names \<and>
   regularize_library (Str ''NP'') = Inl (ValueError ''unrecognized library: {0}'' ''NP'')"
  by (simp add: lower_def lower_char_def spec_names_def libraries_def getitem_def Let_def)

end
